theory Spec2Isabelle
  imports Complex_Main "HOL-Library.Word" "HOL-Library.Signed_Division"
begin

unbundle bit_operations_syntax

section \<open>The WidowX arm controller: data model\<close>

text \<open>
  The controller is the C++ class \<open>WidowX\<close>. Its \<open>int\<close> values are modelled by \<open>int\<close>
  (raw counts stay below 4096 and bus ids below 256, far from the 16-bit limit of the
  target), its \<open>float\<close> values by \<open>real\<close> (exact arithmetic), and the bytes handed to the
  serial line by \<open>8 word\<close>. The arrays of the class have \<open>SERVOCOUNT = 6\<close> entries.
\<close>

type_synonym byte = "8 word"

definition SERVOCOUNT :: nat where
  "SERVOCOUNT = 6"

text \<open>
  Instruction and register numbers of the actuator protocol. They are declared in the
  header \<open>ax12.h\<close> of the bus library, which the controller includes.
\<close>

definition AX_SYNC_WRITE :: int where
  "AX_SYNC_WRITE = 131"

definition AX_GOAL_POSITION_L :: int where
  "AX_GOAL_POSITION_L = 30"

text \<open>What the controller sends to the actuator bus, in the order it sends it.\<close>

datatype bus_cmd =
    Torque_On int
  | Relax_Servo int
  | Set_Position int int
  | Tx byte

text \<open>
  What the source leaves undefined: an access that leaves an array, and an integer
  division by zero.
\<close>

datatype fault = Out_of_bounds int | Division_by_zero

record widowx =
  id_arr :: "int list"
  current_position :: "int list"
  desired_position :: "int list"
  current_angle :: "real list"
  desired_angle :: "real list"
  past_current_angle :: real
  isRelaxed :: bool
  glob_a :: real
  glob_b :: real
  glob_c :: real
  glob_cond :: real
  glob_q1 :: real
  glob_q2 :: real
  glob_q3 :: real
  glob_q4 :: real
  glob_q5 :: real
  W :: "real list list"
  next_position :: "int list"
  t0 :: int
  currentTime :: int
  remainingTime :: int
  bus_reads :: nat
  clock_reads :: nat
  bus_out :: "bus_cmd list"
  serial_out :: "string list"

text \<open>
  \<open>past_current_angle\<close> is the float that lies behind the last entry of
  \<open>current_angle\<close> in the object: the inverse kinematics reads \<open>current_angle[6]\<close>.
  \<open>glob_a\<close> to \<open>glob_q5\<close> are the file-level scratch variables \<open>a, b, c, cond, q1..q5\<close>.
  \<open>bus_reads\<close> and \<open>clock_reads\<close> count the position reads and the calls of \<open>millis()\<close>
  made so far, \<open>bus_out\<close> records every command and byte written to the bus and
  \<open>serial_out\<close> the lines printed on the console.
\<close>

text \<open>
  The surroundings of the controller: what the \<open>k\<close>-th position read returns for a bus id
  (\<open>-1\<close> is the failure sentinel of the bus library) and what the \<open>k\<close>-th call of
  \<open>millis()\<close> returns.
\<close>

record world =
  GetPosition :: "nat \<Rightarrow> int \<Rightarrow> int"
  millis :: "nat \<Rightarrow> int"

definition well_formed :: "widowx \<Rightarrow> bool" where
  "well_formed st \<longleftrightarrow>
     length (id_arr st) = SERVOCOUNT \<and>
     length (current_position st) = SERVOCOUNT \<and>
     length (desired_position st) = SERVOCOUNT \<and>
     length (current_angle st) = SERVOCOUNT \<and>
     length (desired_angle st) = SERVOCOUNT"

text \<open>
  The constructor fills the id array with 1 to 6 and clears \<open>isRelaxed\<close>. The other
  members are those of an object with static storage: zero.
\<close>

definition WidowX :: widowx where
  "WidowX =
     \<lparr>id_arr = map (\<lambda>i. int i + 1) [0..<SERVOCOUNT],
      current_position = replicate SERVOCOUNT 0,
      desired_position = replicate SERVOCOUNT 0,
      current_angle = replicate SERVOCOUNT 0,
      desired_angle = replicate SERVOCOUNT 0,
      past_current_angle = 0,
      isRelaxed = False,
      glob_a = 0, glob_b = 0, glob_c = 0, glob_cond = 0,
      glob_q1 = 0, glob_q2 = 0, glob_q3 = 0, glob_q4 = 0, glob_q5 = 0,
      W = replicate SERVOCOUNT (replicate 4 0),
      next_position = replicate SERVOCOUNT 0,
      t0 = 0, currentTime = 0, remainingTime = 0,
      bus_reads = 0, clock_reads = 0, bus_out = [], serial_out = []\<rparr>"

section \<open>Channel ids\<close>

text \<open>Reading a C array: inside the array the entry, outside a fault.\<close>

definition c_read :: "'a list \<Rightarrow> int \<Rightarrow> fault + 'a" where
  "c_read xs i =
     (if 0 \<le> i \<and> i < int (length xs) then Inr (xs ! nat i) else Inl (Out_of_bounds i))"

definition setId :: "widowx \<Rightarrow> int \<Rightarrow> int \<Rightarrow> widowx" where
  "setId st idx newID =
     (if idx < 0 \<or> idx \<ge> int SERVOCOUNT then st
      else st\<lparr>id_arr := (id_arr st)[nat idx := newID]\<rparr>)"

text \<open>\<open>getId\<close> is the single statement \<open>return id[idx];\<close>.\<close>

definition getId :: "widowx \<Rightarrow> int \<Rightarrow> fault + int" where
  "getId st idx = c_read (id_arr st) idx"

section \<open>Unit conversion\<close>

text \<open>
  \<open>round\<close> on a floating-point value rounds halves away from zero (the standard function
  and the Arduino macro agree).
\<close>

definition c_round :: "real \<Rightarrow> int" where
  "c_round x = (if x \<ge> 0 then \<lfloor>x + 1 / 2\<rfloor> else \<lceil>x - 1 / 2\<rceil>)"

definition positionToAngle :: "int \<Rightarrow> int \<Rightarrow> real" where
  "positionToAngle idx position =
     (if idx = 0 \<or> idx = 3 \<or> idx = 2 then 0.00153435538637 * (real_of_int position - 2047.5)
      else if idx = 1 then - 0.00153435538637 * (real_of_int position - 2047.5)
      else 0.00511826979472 * (real_of_int position - 511.5))"

definition angleToPosition :: "int \<Rightarrow> real \<Rightarrow> int" where
  "angleToPosition idx angle =
     (if idx = 0 \<or> idx = 3 \<or> idx = 2 then c_round (651.739492 * angle + 2047.5)
      else if idx = 1 then c_round (- 651.739492 * angle + 2047.5)
      else c_round (195.378524405 * angle + 511.5))"

text \<open>
  The two actuator families in the words of the design: the angle of one raw count and
  the angular range, 360 degrees for channels 0 to 3 and 300 degrees for channels 4
  and 5.
\<close>

definition count_angle :: "int \<Rightarrow> real" where
  "count_angle idx = (if idx \<in> {0, 1, 2, 3} then 0.00153435538637 else 0.00511826979472)"

definition in_family_range :: "int \<Rightarrow> real \<Rightarrow> bool" where
  "in_family_range idx a \<longleftrightarrow>
     (if idx \<in> {0, 1, 2, 3} then \<bar>a\<bar> \<le> pi else \<bar>a\<bar> \<le> 5 * pi / 6)"

section \<open>Trajectory polynomial\<close>

text \<open>
  \<open>Matrix<4>\<close> is a list of four reals and \<open>Matrix<4, 4>\<close> a list of four rows.
  In the matrix of \<open>cubeInterpolation\<close> the entries \<open>-2 / time\<close> and \<open>-1 / time\<close> divide
  two \<open>int\<close>s: C truncates the quotient (\<open>sdiv\<close>), and a zero divisor is undefined.
\<close>

definition mat_vec :: "real list list \<Rightarrow> real list \<Rightarrow> real list" where
  "mat_vec M v = map (\<lambda>row. sum_list (map2 (*) row v)) M"

definition cubeInterpolation :: "real list \<Rightarrow> int \<Rightarrow> fault + real list" where
  "cubeInterpolation params time =
     (if time = 0 then Inl Division_by_zero
      else
        let tf_1_2 = 1 / (real_of_int time) ^ 2;
            tf_2_3 = 2 / (real_of_int time) ^ 3;
            tf_3_2 = 3 * tf_1_2;
            M_inv = [[1, 0, 0, 0],
                     [0, 0, 1, 0],
                     [- tf_3_2, tf_3_2, real_of_int (- 2 sdiv time), real_of_int (- 1 sdiv time)],
                     [tf_2_3, - tf_2_3, tf_1_2, tf_1_2]];
            wi = mat_vec M_inv params
        in Inr [wi ! 0, wi ! 1, wi ! 2, wi ! 3])"

text \<open>The cubic with coefficients \<open>w\<close>, as \<open>interpolate\<close> evaluates it.\<close>

definition cubic :: "real list \<Rightarrow> real \<Rightarrow> real" where
  "cubic w t = w ! 0 + w ! 1 * t + w ! 2 * t ^ 2 + w ! 3 * t ^ 3"

section \<open>Synchronized write\<close>

text \<open>
  \<open>ax12write(unsigned char)\<close>: the \<open>int\<close> argument is converted to \<open>unsigned char\<close>, which
  keeps its low eight bits, and sent.
\<close>

definition to_uchar :: "int \<Rightarrow> byte" where
  "to_uchar x = word_of_int x"

definition ax12write :: "int \<Rightarrow> widowx \<Rightarrow> widowx" where
  "ax12write data st = st\<lparr>bus_out := bus_out st @ [Tx (to_uchar data)]\<rparr>"

text \<open>
  One pass of the loop of \<open>syncWrite\<close> for channel \<open>i\<close>: the running checksum and the
  three bytes of the channel. \<open>temp >> 8\<close> is \<open>drop_bit 8\<close>.
\<close>

definition syncWrite_step :: "nat \<Rightarrow> int \<times> widowx \<Rightarrow> int \<times> widowx" where
  "syncWrite_step i = (\<lambda>(checksum, st).
     let temp = desired_position st ! i in
       (checksum + ((temp AND 0xff) + drop_bit 8 temp + id_arr st ! i),
        ax12write (drop_bit 8 temp) (ax12write (temp AND 0xff) (ax12write (id_arr st ! i) st))))"

text \<open>
  \<open>syncWrite(numServos)\<close>. The loop reads \<open>desired_position[i]\<close> and \<open>id[i]\<close> for every
  \<open>i < numServos\<close>, so more than \<open>SERVOCOUNT\<close> channels leave the arrays. C's \<open>%\<close>
  truncates towards zero: \<open>smod\<close>. The calls \<open>setTXall()\<close> and \<open>setRX(0)\<close> around the
  frame switch the direction of the line and send nothing.
\<close>

definition syncWrite :: "widowx \<Rightarrow> nat \<Rightarrow> fault + widowx" where
  "syncWrite st numServos =
     (if SERVOCOUNT < numServos then Inl (Out_of_bounds (int SERVOCOUNT))
      else
        let len = 4 + (int numServos * 3);
            checksum = 254 + len + AX_SYNC_WRITE + 2 + AX_GOAL_POSITION_L;
            st1 = ax12write 2 (ax12write AX_GOAL_POSITION_L (ax12write AX_SYNC_WRITE
                    (ax12write len (ax12write 0xFE (ax12write 0xFF (ax12write 0xFF st))))));
            (checksum', st2) = fold syncWrite_step [0..<numServos] (checksum, st1)
        in Inr (ax12write (0xff - (checksum' smod 256)) st2))"

text \<open>
  The frame as the interface description words it: what follows the two sync bytes, and
  the checksum over it.
\<close>

definition frame_body :: "int list \<Rightarrow> int list \<Rightarrow> nat \<Rightarrow> byte list" where
  "frame_body ids poss n =
     [0xFE, to_uchar (4 + 3 * int n), to_uchar AX_SYNC_WRITE,
      to_uchar AX_GOAL_POSITION_L, 2] @
     concat (map (\<lambda>i. [to_uchar (ids ! i),
                        to_uchar (poss ! i mod 256),
                        to_uchar (poss ! i div 256)]) [0..<n])"

definition frame_checksum :: "byte list \<Rightarrow> byte" where
  "frame_checksum body = of_nat (255 - sum_list (map unat body) mod 256)"

definition sync_frame :: "int list \<Rightarrow> int list \<Rightarrow> nat \<Rightarrow> byte list" where
  "sync_frame ids poss n =
     [0xFF, 0xFF] @ frame_body ids poss n @ [frame_checksum (frame_body ids poss n)]"

text \<open>The integers behind the three bytes of each channel.\<close>

definition chan_ints :: "int list \<Rightarrow> int list \<Rightarrow> nat \<Rightarrow> int list" where
  "chan_ints ids poss n =
     concat (map (\<lambda>i. [ids ! i, poss ! i mod 256, poss ! i div 256]) [0..<n])"

section \<open>Reading positions\<close>

text \<open>
  One position read for channel \<open>k\<close>: \<open>current_position[k] = GetPosition(id[k])\<close>.
\<close>

definition read_position :: "world \<Rightarrow> nat \<Rightarrow> widowx \<Rightarrow> widowx" where
  "read_position w k st =
     st\<lparr>current_position :=
          (current_position st)[k := GetPosition w (bus_reads st) (id_arr st ! k)],
        bus_reads := Suc (bus_reads st)\<rparr>"

text \<open>
  The retry loop \<open>for (i = 1; i < 10; i++)\<close> of \<open>getServoPosition\<close>, entered at \<open>i\<close>; it
  returns the value of \<open>i\<close> at which it stopped. The \<open>delay\<close> between two reads changes
  nothing of the state.
\<close>

function getServoPosition_retry :: "world \<Rightarrow> nat \<Rightarrow> nat \<Rightarrow> widowx \<Rightarrow> nat \<times> widowx" where
  "getServoPosition_retry w k i st =
     (if i < 10 then
        let st = read_position w k st in
          if current_position st ! k \<noteq> - 1 then (i, st)
          else getServoPosition_retry w k (Suc i) st
      else (i, st))"
  by pat_completeness auto
termination
  by (relation "measure (\<lambda>(w, k, i, st). 10 - i)") auto

declare getServoPosition_retry.simps [simp del]

text \<open>
  The body of \<open>getServoPosition\<close> for a channel \<open>k\<close> inside the arrays. \<open>prev\<close> is a
  \<open>uint16_t\<close>: the cached count modulo 65536.
\<close>

definition getServoPosition_body :: "world \<Rightarrow> widowx \<Rightarrow> nat \<Rightarrow> int \<times> widowx" where
  "getServoPosition_body w st k =
     (let prev = current_position st ! k mod 65536;
          st = read_position w k st;
          st = (if current_position st ! k = - 1 then
                  (let (i, st) = getServoPosition_retry w k 1 st
                   in if i = 10 then st\<lparr>current_position := (current_position st)[k := prev]\<rparr>
                      else st)
                else st);
          st = st\<lparr>current_angle :=
                  (current_angle st)[k := positionToAngle (int k) (current_position st ! k)]\<rparr>
      in (current_position st ! k, st))"

text \<open>\<open>getServoPosition(idx)\<close> indexes the arrays with \<open>idx\<close> unchecked.\<close>

definition getServoPosition :: "world \<Rightarrow> widowx \<Rightarrow> int \<Rightarrow> fault + int \<times> widowx" where
  "getServoPosition w st idx =
     (if idx < 0 \<or> int SERVOCOUNT \<le> idx then Inl (Out_of_bounds idx)
      else Inr (getServoPosition_body w st (nat idx)))"

definition getServoAngle :: "world \<Rightarrow> widowx \<Rightarrow> int \<Rightarrow> fault + real \<times> widowx" where
  "getServoAngle w st idx =
     (case getServoPosition w st idx of
        Inl f \<Rightarrow> Inl f
      | Inr (p, st) \<Rightarrow> Inr (current_angle st ! nat idx, st))"

text \<open>
  \<open>getCurrentPosition()\<close> calls \<open>getServoPosition(i)\<close> for \<open>i = 0, ..., SERVOCOUNT - 1\<close>,
  always inside the arrays.
\<close>

definition getCurrentPosition :: "world \<Rightarrow> widowx \<Rightarrow> widowx" where
  "getCurrentPosition w st =
     fold (\<lambda>i st. snd (getServoPosition_body w st i)) [0..<SERVOCOUNT] st"

section \<open>Torque and position commands\<close>

definition TorqueOn :: "int \<Rightarrow> widowx \<Rightarrow> widowx" where
  "TorqueOn servo st = st\<lparr>bus_out := bus_out st @ [Torque_On servo]\<rparr>"

definition Relax :: "int \<Rightarrow> widowx \<Rightarrow> widowx" where
  "Relax servo st = st\<lparr>bus_out := bus_out st @ [Relax_Servo servo]\<rparr>"

definition SetPosition :: "int \<Rightarrow> int \<Rightarrow> widowx \<Rightarrow> widowx" where
  "SetPosition servo pos st = st\<lparr>bus_out := bus_out st @ [Set_Position servo pos]\<rparr>"

definition relaxServos :: "widowx \<Rightarrow> widowx" where
  "relaxServos st =
     (fold (\<lambda>i st. Relax (id_arr st ! i) st) [0..<SERVOCOUNT] st)\<lparr>isRelaxed := True\<rparr>"

definition torqueServos :: "widowx \<Rightarrow> widowx" where
  "torqueServos st =
     (fold (\<lambda>i st. TorqueOn (id_arr st ! i) st) [0..<SERVOCOUNT] st)\<lparr>isRelaxed := False\<rparr>"

text \<open>
  A motion command is one that sets a goal position: \<open>SetPosition\<close>, or a byte of a
  synchronized write.
\<close>

fun is_motion :: "bus_cmd \<Rightarrow> bool" where
  "is_motion (Set_Position servo pos) = True"
| "is_motion (Tx b) = True"
| "is_motion (Torque_On servo) = False"
| "is_motion (Relax_Servo servo) = False"

definition motion_cmds :: "widowx \<Rightarrow> bus_cmd list" where
  "motion_cmds st = filter is_motion (bus_out st)"

section \<open>Arm geometry and joint limits\<close>

definition L0 :: real where "L0 = 9"
definition L1 :: real where "L1 = 14"
definition L2 :: real where "L2 = 5"
definition L3 :: real where "L3 = 14"
definition L4 :: real where "L4 = 14"

text \<open>
  \<open>atan2(y, x)\<close> of the C library on finite arguments (without the sign of a zero).
\<close>

definition atan2 :: "real \<Rightarrow> real \<Rightarrow> real" where
  "atan2 y x =
     (if 0 < x then arctan (y / x)
      else if x < 0 then (if 0 \<le> y then arctan (y / x) + pi else arctan (y / x) - pi)
      else if 0 < y then pi / 2
      else if y < 0 then - (pi / 2)
      else 0)"

definition D :: real where "D = sqrt (L1 ^ 2 + L2 ^ 2)"
definition alpha :: real where "alpha = atan2 L1 L2"
definition sa :: real where "sa = sin alpha"
definition ca :: real where "ca = cos alpha"

definition DEFAULT_TIME :: int where "DEFAULT_TIME = 2000"

definition limPi_2 :: real where "limPi_2 = 181 * pi / 360"
definition lim5Pi_6 :: real where "lim5Pi_6 = 5 * pi / 6"
definition q2Lim :: "real list" where "q2Lim = [- limPi_2, limPi_2]"
definition q3Lim :: "real list" where "q3Lim = [- limPi_2, lim5Pi_6]"
definition q4Lim :: "real list" where "q4Lim = [- 11 * pi / 18, limPi_2]"

section \<open>Inverse kinematics\<close>

text \<open>
  The solvers work on the file-level variables \<open>a, b, c, cond, q1, ..., q5\<close>, which are
  fields of the state here; every assignment of the source is one update. The results
  are stored by the last six assignments, which read \<open>current_angle[5]\<close> for
  \<open>desired_angle[4]\<close> and \<open>current_angle[6]\<close>, the float behind the array, for
  \<open>desired_angle[5]\<close>.
\<close>

definition save_desired_angles :: "widowx \<Rightarrow> widowx" where
  "save_desired_angles st =
     (let st = st\<lparr>desired_angle := (desired_angle st)[0 := glob_q1 st]\<rparr>;
          st = st\<lparr>desired_angle := (desired_angle st)[1 := glob_q2 st]\<rparr>;
          st = st\<lparr>desired_angle := (desired_angle st)[2 := glob_q3 st]\<rparr>;
          st = st\<lparr>desired_angle := (desired_angle st)[3 := glob_q4 st]\<rparr>;
          st = st\<lparr>desired_angle := (desired_angle st)[4 := current_angle st ! 5]\<rparr>;
          st = st\<lparr>desired_angle := (desired_angle st)[5 := past_current_angle st]\<rparr>
      in st)"

text \<open>
  The loop \<open>for (;;)\<close> of \<open>getIK_Q4\<close>. It returns 1 where the source returns 1 from
  inside the loop and 0 where the source leaves the loop by \<open>break\<close>. \<open>tryTwice\<close> is
  the flag of the source, 1 or 0.
\<close>

function getIK_Q4_loop :: "real \<Rightarrow> real \<Rightarrow> real \<Rightarrow> real \<Rightarrow> nat \<Rightarrow> widowx \<Rightarrow> nat \<times> widowx" where
  "getIK_Q4_loop X Z s4 c4 tryTwice st =
     (let c3 = cos (glob_q3 st);
          s3 = sin (glob_q3 st);
          st = st\<lparr>glob_a := D * ca + L3 * c3 + L4 * c3 * c4 - L4 * s3 * s4\<rparr>;
          st = st\<lparr>glob_b := D * sa + L3 * s3 + L4 * s3 * c4 + L4 * c3 * s4\<rparr>;
          st = st\<lparr>glob_q2 := atan2 (glob_a st * Z - glob_b st * X) (glob_a st * X + glob_b st * Z)\<rparr>
      in if glob_q2 st < q2Lim ! 0 \<or> glob_q2 st > q2Lim ! 1 then
           (if tryTwice \<noteq> 0 then
              let st = st\<lparr>glob_q3 := 2 * atan2 (glob_b st + sqrt (glob_cond st)) (glob_a st + glob_c st)\<rparr>;
                  st = st\<lparr>glob_q3 := atan2 (sin (glob_q3 st)) (cos (glob_q3 st))\<rparr>
              in if glob_q3 st < q3Lim ! 0 \<or> glob_q3 st > q3Lim ! 1 then (1, st)
                 else getIK_Q4_loop X Z s4 c4 0 st
            else (1, st))
         else (0, st))"
  by pat_completeness auto
termination
  by (relation "measure (\<lambda>(X, Z, s4, c4, tryTwice, st). tryTwice)") auto

declare getIK_Q4_loop.simps [simp del]

definition getIK_Q4 :: "widowx \<Rightarrow> real \<Rightarrow> real \<Rightarrow> real \<Rightarrow> nat \<times> widowx" where
  "getIK_Q4 st Px Py Pz =
     (let st = st\<lparr>glob_q1 := atan2 Py Px\<rparr>;
          X = sqrt (Px ^ 2 + Py ^ 2);
          Z = Pz - L0;
          st = st\<lparr>glob_q4 := current_angle st ! 3\<rparr>;
          s4 = sin (glob_q4 st);
          c4 = cos (glob_q4 st);
          st = st\<lparr>glob_a := L3 * ca + L4 * ca * c4 + L4 * sa * s4\<rparr>;
          st = st\<lparr>glob_b := L3 * sa - L4 * ca * s4 + L4 * sa * c4\<rparr>;
          st = st\<lparr>glob_c := (X ^ 2 + Z ^ 2 - D ^ 2 - L3 ^ 2 - L4 ^ 2 - 2 * L3 * L4 * c4) / (2 * D)\<rparr>;
          st = st\<lparr>glob_cond := (glob_a st) ^ 2 + (glob_b st) ^ 2 - (glob_c st) ^ 2\<rparr>
      in if glob_cond st < 0 then (1, st)
         else
           let st = st\<lparr>glob_q3 := 2 * atan2 (glob_b st - sqrt (glob_cond st)) (glob_a st + glob_c st)\<rparr>;
               st = st\<lparr>glob_q3 := atan2 (sin (glob_q3 st)) (cos (glob_q3 st))\<rparr>
           in if glob_q3 st < q3Lim ! 0 \<or> glob_q3 st > q3Lim ! 1 then
                (let st = st\<lparr>glob_q3 := 2 * atan2 (glob_b st + sqrt (glob_cond st)) (glob_a st + glob_c st)\<rparr>;
                     st = st\<lparr>glob_q3 := atan2 (sin (glob_q3 st)) (cos (glob_q3 st))\<rparr>
                 in if glob_q3 st < q3Lim ! 0 \<or> glob_q3 st > q3Lim ! 1 then (1, st)
                    else
                      (case getIK_Q4_loop X Z s4 c4 0 st of
                         (r, st) \<Rightarrow> if r \<noteq> 0 then (1, st) else (0, save_desired_angles st)))
              else
                (case getIK_Q4_loop X Z s4 c4 1 st of
                   (r, st) \<Rightarrow> if r \<noteq> 0 then (1, st) else (0, save_desired_angles st)))"

text \<open>
  The loop of \<open>getIK_Gamma\<close> and of \<open>getIK_Gamma_Controller\<close>. The two loops differ in one
  factor only: the retries compute \<open>alpha - acos(c)\<close> in the first and
  \<open>alpha + pow(-1, selection) * acos(c)\<close> in the second; \<open>sg\<close> is that factor.
\<close>

function getIK_Gamma_loop :: "real \<Rightarrow> real \<Rightarrow> real \<Rightarrow> real \<Rightarrow> nat \<Rightarrow> widowx \<Rightarrow> nat \<times> widowx" where
  "getIK_Gamma_loop X Z gamma sg tryTwice st =
     (let c3 = cos (glob_q3 st);
          s3 = sin (glob_q3 st);
          st = st\<lparr>glob_a := D * ca + L3 * c3\<rparr>;
          st = st\<lparr>glob_b := D * sa + L3 * s3\<rparr>;
          st = st\<lparr>glob_q2 := atan2 (glob_a st * Z - glob_b st * X) (glob_a st * X + glob_b st * Z)\<rparr>
      in if glob_q2 st < q2Lim ! 0 \<or> glob_q2 st > q2Lim ! 1 then
           (if tryTwice \<noteq> 0 then
              let st = st\<lparr>glob_q3 := alpha + sg * arccos (glob_c st)\<rparr>;
                  st = st\<lparr>glob_q3 := atan2 (sin (glob_q3 st)) (cos (glob_q3 st))\<rparr>
              in if glob_q3 st < q3Lim ! 0 \<or> glob_q3 st > q3Lim ! 1 then (1, st)
                 else getIK_Gamma_loop X Z gamma sg 0 st
            else (1, st))
         else
           let st = st\<lparr>glob_q4 := - gamma - glob_q2 st - glob_q3 st\<rparr>
           in if glob_q4 st < q4Lim ! 0 \<or> glob_q4 st > q4Lim ! 1 then
                (if tryTwice \<noteq> 0 then
                   let st = st\<lparr>glob_q3 := alpha + sg * arccos (glob_c st)\<rparr>;
                       st = st\<lparr>glob_q3 := atan2 (sin (glob_q3 st)) (cos (glob_q3 st))\<rparr>
                   in if glob_q3 st < q3Lim ! 0 \<or> glob_q3 st > q3Lim ! 1 then (1, st)
                      else getIK_Gamma_loop X Z gamma sg 0 st
                 else (1, st))
              else (0, st))"
  by pat_completeness auto
termination
  by (relation "measure (\<lambda>(X, Z, gamma, sg, tryTwice, st). tryTwice)") auto

declare getIK_Gamma_loop.simps [simp del]

definition getIK_Gamma :: "widowx \<Rightarrow> real \<Rightarrow> real \<Rightarrow> real \<Rightarrow> real \<Rightarrow> nat \<times> widowx" where
  "getIK_Gamma st Px Py Pz gamma =
     (let sg = sin gamma;
          cg = cos gamma;
          X = sqrt (Px ^ 2 + Py ^ 2) - L4 * cg;
          Z = Pz - L0 + L4 * sg;
          st = st\<lparr>glob_q1 := atan2 Py Px\<rparr>;
          st = st\<lparr>glob_c := (X ^ 2 + Z ^ 2 - D ^ 2 - L3 ^ 2) / (2 * D * L3)\<rparr>
      in if \<bar>glob_c st\<bar> > 1 then (1, st)
         else
           let st = st\<lparr>glob_q3 := alpha + arccos (glob_c st)\<rparr>;
               st = st\<lparr>glob_q3 := atan2 (sin (glob_q3 st)) (cos (glob_q3 st))\<rparr>
           in if glob_q3 st < q3Lim ! 0 \<or> glob_q3 st > q3Lim ! 1 then
                (let st = st\<lparr>glob_q3 := alpha - arccos (glob_c st)\<rparr>;
                     st = st\<lparr>glob_q3 := atan2 (sin (glob_q3 st)) (cos (glob_q3 st))\<rparr>
                 in if glob_q3 st < q3Lim ! 0 \<or> glob_q3 st > q3Lim ! 1 then (1, st)
                    else
                      (case getIK_Gamma_loop X Z gamma (- 1) 0 st of
                         (r, st) \<Rightarrow> if r \<noteq> 0 then (1, st) else (0, save_desired_angles st)))
              else
                (case getIK_Gamma_loop X Z gamma (- 1) 1 st of
                   (r, st) \<Rightarrow> if r \<noteq> 0 then (1, st) else (0, save_desired_angles st)))"

text \<open>
  \<open>Matrix<3, 3>\<close> is a list of three rows. \<open>Invert\<close> belongs to the linear-algebra library
  the controller includes; it replaces a regular matrix by its inverse, here by the
  cofactor formula.
\<close>

type_synonym mat3 = "real list list"

definition rotz :: "real \<Rightarrow> mat3" where
  "rotz angle = [[cos angle, - sin angle, 0],
                 [sin angle, cos angle, 0],
                 [0, 0, 1]]"

definition roty :: "real \<Rightarrow> mat3" where
  "roty angle = [[cos angle, 0, sin angle],
                 [0, 1, 0],
                 [- sin angle, 0, cos angle]]"

definition mat_mul :: "mat3 \<Rightarrow> mat3 \<Rightarrow> mat3" where
  "mat_mul A B =
     map (\<lambda>row. map (\<lambda>j. sum_list (map2 (*) row (map (\<lambda>r. r ! j) B))) [0..<3]) A"

definition det3 :: "mat3 \<Rightarrow> real" where
  "det3 M =
     M ! 0 ! 0 * (M ! 1 ! 1 * M ! 2 ! 2 - M ! 1 ! 2 * M ! 2 ! 1)
     - M ! 0 ! 1 * (M ! 1 ! 0 * M ! 2 ! 2 - M ! 1 ! 2 * M ! 2 ! 0)
     + M ! 0 ! 2 * (M ! 1 ! 0 * M ! 2 ! 1 - M ! 1 ! 1 * M ! 2 ! 0)"

definition Invert :: "mat3 \<Rightarrow> mat3" where
  "Invert M =
     (if det3 M = 0 then M
      else
        [[(M ! 1 ! 1 * M ! 2 ! 2 - M ! 1 ! 2 * M ! 2 ! 1) / det3 M,
          (M ! 0 ! 2 * M ! 2 ! 1 - M ! 0 ! 1 * M ! 2 ! 2) / det3 M,
          (M ! 0 ! 1 * M ! 1 ! 2 - M ! 0 ! 2 * M ! 1 ! 1) / det3 M],
         [(M ! 1 ! 2 * M ! 2 ! 0 - M ! 1 ! 0 * M ! 2 ! 2) / det3 M,
          (M ! 0 ! 0 * M ! 2 ! 2 - M ! 0 ! 2 * M ! 2 ! 0) / det3 M,
          (M ! 0 ! 2 * M ! 1 ! 0 - M ! 0 ! 0 * M ! 1 ! 2) / det3 M],
         [(M ! 1 ! 0 * M ! 2 ! 1 - M ! 1 ! 1 * M ! 2 ! 0) / det3 M,
          (M ! 0 ! 1 * M ! 2 ! 0 - M ! 0 ! 0 * M ! 2 ! 1) / det3 M,
          (M ! 0 ! 0 * M ! 1 ! 1 - M ! 0 ! 1 * M ! 1 ! 0) / det3 M]])"

definition getIK_Rd :: "widowx \<Rightarrow> real \<Rightarrow> real \<Rightarrow> real \<Rightarrow> mat3 \<Rightarrow> nat \<times> widowx" where
  "getIK_Rd st Px Py Pz Rd =
     (let gamma = atan2 (- (Rd ! 2 ! 0)) (Rd ! 0 ! 0)
      in case getIK_Gamma st Px Py Pz gamma of
           (r, st) \<Rightarrow>
             if r \<noteq> 0 then (1, st)
             else
               let RyGamma = Invert (roty gamma);
                   Rx5 = mat_mul RyGamma Rd;
                   st = st\<lparr>glob_q5 := atan2 (Rx5 ! 2 ! 1) (Rx5 ! 1 ! 1)\<rparr>;
                   st = st\<lparr>desired_angle := (desired_angle st)[4 := glob_q5 st]\<rparr>
               in (0, st))"

definition getIK_RdBase :: "widowx \<Rightarrow> real \<Rightarrow> real \<Rightarrow> real \<Rightarrow> mat3 \<Rightarrow> nat \<times> widowx" where
  "getIK_RdBase st Px Py Pz RdBase =
     (let st = st\<lparr>glob_q1 := atan2 Py Px\<rparr>;
          RzQ1 = Invert (rotz (glob_q1 st));
          Rd = mat_mul RzQ1 RdBase
      in getIK_Rd st Px Py Pz Rd)"

text \<open>
  \<open>getIK_Gamma_Controller\<close> reads the elbow angle from the bus (\<open>getServoAngle(2)\<close>) and
  tries first the candidate closer to it. It stores \<open>desired_angle[0..3]\<close> only.
\<close>

definition getIK_Gamma_Controller ::
    "world \<Rightarrow> widowx \<Rightarrow> real \<Rightarrow> real \<Rightarrow> real \<Rightarrow> real \<Rightarrow> nat \<times> widowx" where
  "getIK_Gamma_Controller w st Px Py Pz gamma =
     (let sg = sin gamma;
          cg = cos gamma;
          X = sqrt (Px ^ 2 + Py ^ 2) - L4 * cg;
          Z = Pz - L0 + L4 * sg;
          st = st\<lparr>glob_q1 := atan2 Py Px\<rparr>;
          st = st\<lparr>glob_c := (X ^ 2 + Z ^ 2 - D ^ 2 - L3 ^ 2) / (2 * D * L3)\<rparr>
      in if \<bar>glob_c st\<bar> > 1 then (1, st)
         else
           let st = snd (getServoPosition_body w st 2);
               q3_prev = current_angle st ! 2;
               q3_1 = alpha + arccos (glob_c st);
               q3_1 = atan2 (sin q3_1) (cos q3_1);
               q3_2 = alpha - arccos (glob_c st);
               q3_2 = atan2 (sin q3_2) (cos q3_2);
               (st, selection) =
                  (if \<bar>q3_1 - q3_prev\<bar> > \<bar>q3_2 - q3_prev\<bar> then (st\<lparr>glob_q3 := q3_2\<rparr>, 0)
                   else (st\<lparr>glob_q3 := q3_1\<rparr>, 1::nat))
           in if glob_q3 st < q3Lim ! 0 \<or> glob_q3 st > q3Lim ! 1 then
                (let st = st\<lparr>glob_q3 := alpha + (- 1) ^ selection * arccos (glob_c st)\<rparr>;
                     st = st\<lparr>glob_q3 := atan2 (sin (glob_q3 st)) (cos (glob_q3 st))\<rparr>
                 in if glob_q3 st < q3Lim ! 0 \<or> glob_q3 st > q3Lim ! 1 then (1, st)
                    else
                      (case getIK_Gamma_loop X Z gamma ((- 1) ^ selection) 0 st of
                         (r, st) \<Rightarrow>
                           if r \<noteq> 0 then (1, st)
                           else (0, st\<lparr>desired_angle :=
                                     (desired_angle st)[0 := glob_q1 st, 1 := glob_q2 st,
                                                        2 := glob_q3 st, 3 := glob_q4 st]\<rparr>)))
              else
                (case getIK_Gamma_loop X Z gamma ((- 1) ^ selection) 1 st of
                   (r, st) \<Rightarrow>
                     if r \<noteq> 0 then (1, st)
                     else (0, st\<lparr>desired_angle :=
                               (desired_angle st)[0 := glob_q1 st, 1 := glob_q2 st,
                                                  2 := glob_q3 st, 3 := glob_q4 st]\<rparr>)))"

section \<open>Interpolated motion\<close>

text \<open>Running a loop body that may fault over the indices of a list.\<close>

fun fold_fault :: "(nat \<Rightarrow> widowx \<Rightarrow> fault + widowx) \<Rightarrow> nat list \<Rightarrow> widowx \<Rightarrow> fault + widowx" where
  "fold_fault f [] st = Inr st"
| "fold_fault f (i # is) st = (case f i st of Inl e \<Rightarrow> Inl e | Inr st \<Rightarrow> fold_fault f is st)"

text \<open>The first loop of \<open>interpolate\<close> for channel \<open>i\<close>: goal count and polynomial.\<close>

definition interpolate_plan :: "int \<Rightarrow> nat \<Rightarrow> widowx \<Rightarrow> fault + widowx" where
  "interpolate_plan remTime i st =
     (let st = st\<lparr>desired_position :=
                  (desired_position st)[i := angleToPosition (int i) (desired_angle st ! i)]\<rparr>;
          params = [real_of_int (current_position st ! i),
                    real_of_int (desired_position st ! i), 0, 0]
      in case cubeInterpolation params remTime of
           Inl e \<Rightarrow> Inl e
         | Inr wi \<Rightarrow> Inr (st\<lparr>W := (W st)[i := wi]\<rparr>))"

text \<open>One sample of the sampling loop for channel \<open>i\<close>.\<close>

definition interpolate_sample :: "nat \<Rightarrow> widowx \<Rightarrow> widowx" where
  "interpolate_sample i st =
     (let st = st\<lparr>next_position :=
                  (next_position st)[i := c_round (cubic (W st ! i) (real_of_int (currentTime st)))]\<rparr>
      in SetPosition (id_arr st ! i) (next_position st ! i) st)"

text \<open>
  The sampling loop \<open>while (currentTime < remTime)\<close>. It ends when the clock has passed
  \<open>remTime\<close>; with a clock that stands still it does not end.
\<close>

partial_function (option) interpolate_loop :: "world \<Rightarrow> int \<Rightarrow> widowx \<Rightarrow> widowx option" where
  "interpolate_loop w remTime st =
     (if currentTime st < remTime then
        interpolate_loop w remTime
          ((fold interpolate_sample [0..<SERVOCOUNT - 1] st)
             \<lparr>currentTime := millis w (clock_reads st) - t0 st,
              clock_reads := Suc (clock_reads st)\<rparr>)
      else Some st)"

definition interpolate :: "world \<Rightarrow> widowx \<Rightarrow> int \<Rightarrow> (fault + widowx) option" where
  "interpolate w st remTime =
     (case fold_fault (interpolate_plan remTime) [0..<SERVOCOUNT - 1] st of
        Inl e \<Rightarrow> Some (Inl e)
      | Inr st \<Rightarrow>
          let st = st\<lparr>t0 := millis w (clock_reads st), clock_reads := Suc (clock_reads st)\<rparr>;
              st = st\<lparr>currentTime := millis w (clock_reads st) - t0 st,
                      clock_reads := Suc (clock_reads st)\<rparr>
          in case interpolate_loop w remTime st of
               None \<Rightarrow> None
             | Some st \<Rightarrow>
                 Some (Inr (SetPosition (id_arr st ! 4) (desired_position st ! 4)
                           (SetPosition (id_arr st ! 3) (desired_position st ! 3)
                           (SetPosition (id_arr st ! 2) (desired_position st ! 2)
                           (SetPosition (id_arr st ! 1) (desired_position st ! 1)
                           (SetPosition (id_arr st ! 0) (desired_position st ! 0) st)))))))"

section \<open>Moving the arm to a point\<close>

definition println :: "string \<Rightarrow> widowx \<Rightarrow> widowx" where
  "println line st = st\<lparr>serial_out := serial_out st @ [line]\<rparr>"

text \<open>
  The move operations return \<open>None\<close> where the sampling loop does not end and a fault
  where the source is undefined.
\<close>

definition setArmGamma :: "world \<Rightarrow> widowx \<Rightarrow> real \<Rightarrow> real \<Rightarrow> real \<Rightarrow> real \<Rightarrow> fault + widowx" where
  "setArmGamma w st Px Py Pz gamma =
     (let st = (if isRelaxed st then torqueServos st else st)
      in case getIK_Gamma_Controller w st Px Py Pz gamma of
           (r, st) \<Rightarrow>
             if r \<noteq> 0 then Inr st
             else
               syncWrite
                 (fold (\<lambda>i st. st\<lparr>desired_position :=
                          (desired_position st)[i := angleToPosition (int i) (desired_angle st ! i)]\<rparr>)
                    [0..<4] st)
                 4)"

definition moveArmQ4 :: "world \<Rightarrow> widowx \<Rightarrow> real \<Rightarrow> real \<Rightarrow> real \<Rightarrow> (fault + widowx) option" where
  "moveArmQ4 w st Px Py Pz =
     (let st = (if isRelaxed st then torqueServos st else st);
          st = getCurrentPosition w st
      in case getIK_Q4 st Px Py Pz of
           (r, st) \<Rightarrow>
             if r \<noteq> 0 then Some (Inr (println ''No solution for IK!'' st))
             else interpolate w st DEFAULT_TIME)"

definition moveArmQ4_timed ::
    "world \<Rightarrow> widowx \<Rightarrow> real \<Rightarrow> real \<Rightarrow> real \<Rightarrow> int \<Rightarrow> (fault + widowx) option" where
  "moveArmQ4_timed w st Px Py Pz time =
     (let st = (if isRelaxed st then torqueServos st else st);
          st = st\<lparr>t0 := millis w (clock_reads st), clock_reads := Suc (clock_reads st)\<rparr>;
          st = getCurrentPosition w st
      in case getIK_Q4 st Px Py Pz of
           (r, st) \<Rightarrow>
             if r \<noteq> 0 then Some (Inr (println ''No solution for IK!'' st))
             else
               let st = st\<lparr>remainingTime := time - (millis w (clock_reads st) - t0 st),
                            clock_reads := Suc (clock_reads st)\<rparr>
               in interpolate w st (remainingTime st))"

definition moveArmGamma ::
    "world \<Rightarrow> widowx \<Rightarrow> real \<Rightarrow> real \<Rightarrow> real \<Rightarrow> real \<Rightarrow> (fault + widowx) option" where
  "moveArmGamma w st Px Py Pz gamma =
     (let st = (if isRelaxed st then torqueServos st else st);
          st = getCurrentPosition w st
      in case getIK_Gamma st Px Py Pz gamma of
           (r, st) \<Rightarrow>
             if r \<noteq> 0 then Some (Inr (println ''No solution for IK!'' st))
             else interpolate w st DEFAULT_TIME)"

definition moveArmGamma_timed ::
    "world \<Rightarrow> widowx \<Rightarrow> real \<Rightarrow> real \<Rightarrow> real \<Rightarrow> real \<Rightarrow> int \<Rightarrow> (fault + widowx) option" where
  "moveArmGamma_timed w st Px Py Pz gamma time =
     (let st = (if isRelaxed st then torqueServos st else st);
          st = st\<lparr>t0 := millis w (clock_reads st), clock_reads := Suc (clock_reads st)\<rparr>;
          st = getCurrentPosition w st
      in case getIK_Gamma st Px Py Pz gamma of
           (r, st) \<Rightarrow>
             if r \<noteq> 0 then Some (Inr (println ''No solution for IK!'' st))
             else
               let st = st\<lparr>remainingTime := time - (millis w (clock_reads st) - t0 st),
                            clock_reads := Suc (clock_reads st)\<rparr>
               in interpolate w st (remainingTime st))"

definition moveArmRd ::
    "world \<Rightarrow> widowx \<Rightarrow> real \<Rightarrow> real \<Rightarrow> real \<Rightarrow> mat3 \<Rightarrow> (fault + widowx) option" where
  "moveArmRd w st Px Py Pz Rd =
     (let st = (if isRelaxed st then torqueServos st else st);
          st = getCurrentPosition w st
      in case getIK_Rd st Px Py Pz Rd of
           (r, st) \<Rightarrow>
             if r \<noteq> 0 then Some (Inr (println ''No solution for IK!'' st))
             else interpolate w st DEFAULT_TIME)"

definition moveArmRd_timed ::
    "world \<Rightarrow> widowx \<Rightarrow> real \<Rightarrow> real \<Rightarrow> real \<Rightarrow> mat3 \<Rightarrow> int \<Rightarrow> (fault + widowx) option" where
  "moveArmRd_timed w st Px Py Pz Rd time =
     (let st = (if isRelaxed st then torqueServos st else st);
          st = st\<lparr>t0 := millis w (clock_reads st), clock_reads := Suc (clock_reads st)\<rparr>;
          st = getCurrentPosition w st
      in case getIK_Rd st Px Py Pz Rd of
           (r, st) \<Rightarrow>
             if r \<noteq> 0 then Some (Inr (println ''No solution for IK!'' st))
             else
               let st = st\<lparr>remainingTime := time - (millis w (clock_reads st) - t0 st),
                            clock_reads := Suc (clock_reads st)\<rparr>
               in interpolate w st (remainingTime st))"

definition moveArmRdBase ::
    "world \<Rightarrow> widowx \<Rightarrow> real \<Rightarrow> real \<Rightarrow> real \<Rightarrow> mat3 \<Rightarrow> (fault + widowx) option" where
  "moveArmRdBase w st Px Py Pz RdBase =
     (let st = (if isRelaxed st then torqueServos st else st);
          st = getCurrentPosition w st
      in case getIK_RdBase st Px Py Pz RdBase of
           (r, st) \<Rightarrow>
             if r \<noteq> 0 then Some (Inr (println ''No solution for IK!'' st))
             else interpolate w st DEFAULT_TIME)"

definition moveArmRdBase_timed ::
    "world \<Rightarrow> widowx \<Rightarrow> real \<Rightarrow> real \<Rightarrow> real \<Rightarrow> mat3 \<Rightarrow> int \<Rightarrow> (fault + widowx) option" where
  "moveArmRdBase_timed w st Px Py Pz RdBase time =
     (let st = (if isRelaxed st then torqueServos st else st);
          st = st\<lparr>t0 := millis w (clock_reads st), clock_reads := Suc (clock_reads st)\<rparr>;
          st = getCurrentPosition w st
      in case getIK_RdBase st Px Py Pz RdBase of
           (r, st) \<Rightarrow>
             if r \<noteq> 0 then Some (Inr (println ''No solution for IK!'' st))
             else
               let st = st\<lparr>remainingTime := time - (millis w (clock_reads st) - t0 st),
                            clock_reads := Suc (clock_reads st)\<rparr>
               in interpolate w st (remainingTime st))"

text \<open>
  The state on which a move operation runs its solver: torque re-engaged if it was
  relaxed, the clock read by the timed variants, all positions refreshed.
\<close>

definition solver_input :: "world \<Rightarrow> widowx \<Rightarrow> widowx" where
  "solver_input w st = getCurrentPosition w (if isRelaxed st then torqueServos st else st)"

definition solver_input_timed :: "world \<Rightarrow> widowx \<Rightarrow> widowx" where
  "solver_input_timed w st =
     getCurrentPosition w
       ((if isRelaxed st then torqueServos st else st)
          \<lparr>t0 := millis w (clock_reads (if isRelaxed st then torqueServos st else st)),
           clock_reads := Suc (clock_reads (if isRelaxed st then torqueServos st else st))\<rparr>)"

text \<open>
  Two surroundings for concrete runs: a bus whose first \<open>n\<close> reads fail and which then
  answers \<open>v\<close>, and a bus on which every read fails. The clock advances by 10 ms from
  call to call.
\<close>

definition flaky_bus :: "nat \<Rightarrow> int \<Rightarrow> world" where
  "flaky_bus n v = \<lparr>GetPosition = (\<lambda>k servo. if k < n then - 1 else v), millis = (\<lambda>k. 10 * int k)\<rparr>"

definition dead_bus :: world where
  "dead_bus = \<lparr>GetPosition = (\<lambda>k servo. - 1), millis = (\<lambda>k. 10 * int k)\<rparr>"

section \<open>Notions used in the properties\<close>

text \<open>
  Two states differ in the scratch variables only when they agree once these are
  cleared.
\<close>

definition clear_scratch :: "widowx \<Rightarrow> widowx" where
  "clear_scratch st =
     st\<lparr>glob_a := 0, glob_b := 0, glob_c := 0, glob_cond := 0, glob_q1 := 0, glob_q2 := 0,
        glob_q3 := 0, glob_q4 := 0, glob_q5 := 0\<rparr>"

definition scratch_only :: "widowx \<Rightarrow> widowx \<Rightarrow> bool" where
  "scratch_only st st' \<longleftrightarrow> clear_scratch st' = clear_scratch st"

text \<open>
  A solver leaves the desired state alone when the desired angles, the desired
  positions and the motion commands sent so far are what they were.
\<close>

definition desired_unchanged :: "widowx \<Rightarrow> widowx \<Rightarrow> bool" where
  "desired_unchanged st st' \<longleftrightarrow>
     desired_angle st' = desired_angle st \<and>
     desired_position st' = desired_position st \<and>
     motion_cmds st' = motion_cmds st"

text \<open>
  A solver either fails, having changed scratch variables only, or succeeds and stores
  its angles with \<open>store\<close>.
\<close>

definition solver_result :: "widowx \<Rightarrow> (widowx \<Rightarrow> widowx) \<Rightarrow> nat \<times> widowx \<Rightarrow> bool" where
  "solver_result st store res \<longleftrightarrow>
     (\<exists>st1. scratch_only st st1 \<and> (res = (1, st1) \<or> res = (0, store st1)))"

text \<open>The four assignments that end \<open>getIK_Gamma_Controller\<close>.\<close>

definition store_controller :: "widowx \<Rightarrow> widowx" where
  "store_controller st =
     st\<lparr>desired_angle := (desired_angle st)[0 := glob_q1 st, 1 := glob_q2 st,
                                            2 := glob_q3 st, 3 := glob_q4 st]\<rparr>"

text \<open>
  The arm with all solved joints at their centre, the wrist roll at 0.5 rad and the
  gripper at 1 rad.
\<close>

definition centred_arm :: widowx where
  "centred_arm = WidowX\<lparr>current_angle := [0, 0, 0, 0, 1 / 2, 1]\<rparr>"

text \<open>
  The fallback elbow angle in the words of the design: the other root
  \<open>2 * atan2(b + sqrt(cond), a + c)\<close> of the half-angle equation, normalised, with the
  coefficients \<open>a, b, c, cond\<close> that produced the first candidate.
\<close>

definition fallback_elbow_spec :: "real \<Rightarrow> real \<Rightarrow> real \<Rightarrow> real \<Rightarrow> real" where
  "fallback_elbow_spec Px Py Pz q4 =
     (let X = sqrt (Px ^ 2 + Py ^ 2);
          Z = Pz - L0;
          a = L3 * ca + L4 * ca * cos q4 + L4 * sa * sin q4;
          b = L3 * sa - L4 * ca * sin q4 + L4 * sa * cos q4;
          c = (X ^ 2 + Z ^ 2 - D ^ 2 - L3 ^ 2 - L4 ^ 2 - 2 * L3 * L4 * cos q4) / (2 * D);
          cond = a ^ 2 + b ^ 2 - c ^ 2;
          q3 = 2 * atan2 (b + sqrt cond) (a + c)
      in atan2 (sin q3) (cos q3))"

text \<open>
  The values \<open>getIK_Q4\<close> reaches for the target (5, 0, 23) on the centred arm: the
  argument of the retried elbow angle, that angle, and the shoulder angle computed
  from it.
\<close>

definition retry_ratio :: real where
  "retry_ratio = (- 14 + 140 / D) / (5 - 392 / D)"

definition wrong_elbow :: real where
  "wrong_elbow = 2 * arctan retry_ratio"

definition wrong_shoulder :: real where
  "wrong_shoulder =
     atan2 ((5 + 28 * cos wrong_elbow) * 14 - (14 + 28 * sin wrong_elbow) * 5)
           ((5 + 28 * cos wrong_elbow) * 5 + (14 + 28 * sin wrong_elbow) * 14)"

section \<open>Properties\<close>

subsection \<open>The frame of the synchronized write\<close>

lemma and_ff: "(t::int) AND 0xff = t mod 256"
  using take_bit_eq_mask[of 8 t] by (simp add: take_bit_eq_mod mask_eq_exp_minus_1)

lemma syncWrite_step_eq:
  "syncWrite_step i (ck, st) =
     (ck + (id_arr st ! i + desired_position st ! i mod 256 + desired_position st ! i div 256),
      st\<lparr>bus_out := bus_out st @ map (\<lambda>x. Tx (to_uchar x))
          [id_arr st ! i, desired_position st ! i mod 256, desired_position st ! i div 256]\<rparr>)"
  by (simp add: syncWrite_step_def Let_def ax12write_def and_ff drop_bit_eq_div)

lemma fold_syncWrite_step:
  "fold syncWrite_step [0..<n] (ck, st) =
     (ck + sum_list (chan_ints (id_arr st) (desired_position st) n),
      st\<lparr>bus_out := bus_out st @
          map (\<lambda>x. Tx (to_uchar x)) (chan_ints (id_arr st) (desired_position st) n)\<rparr>)"
proof (induction n)
  case 0
  show ?case by (simp add: chan_ints_def)
next
  case (Suc n)
  show ?case
    by (simp add: Suc syncWrite_step_eq) (simp add: chan_ints_def)
qed

lemma unat_to_uchar: "int (unat (to_uchar x)) = x mod 256"
  by (simp add: to_uchar_def uint_word_of_int take_bit_eq_mod)

lemma sum_unat_bytes:
  "int (sum_list (map unat (map to_uchar xs))) mod 256 = sum_list xs mod 256"
proof (induction xs)
  case Nil
  show ?case by simp
next
  case (Cons x xs)
  show ?case
    using Cons unat_to_uchar[of x]
    apply simp
    by (metis mod_add_eq mod_mod_trivial)
qed

lemma smod_256_cong: "(k smod 256) mod 256 = k mod (256::int)"
  using pos_mod_bound[of 256 k]
  by (auto simp add: signed_modulo_int_def sgn_if zmod_zminus1_eq_if)

lemma checksum_byte:
  assumes "ck = sum_list xs"
  shows "to_uchar (0xff - (ck smod 256)) = frame_checksum (map to_uchar xs)"
proof -
  let ?S = "sum_list (map unat (map to_uchar xs))"
  have S: "int ?S mod 256 = ck mod 256"
    using sum_unat_bytes[of xs] assms by simp
  have lt: "?S mod 256 < 256" by simp
  have "int (255 - ?S mod 256) = 255 - int ?S mod 256"
    using lt by (simp add: of_nat_diff zmod_int)
  then have "int (255 - ?S mod 256) mod 256 = (255 - ck mod 256) mod 256"
    using S by simp
  also have "\<dots> = (255 - ck smod 256) mod 256"
    by (metis mod_diff_right_eq smod_256_cong)
  finally have "(word_of_int (int (255 - ?S mod 256)) :: byte) = word_of_int (255 - ck smod 256)"
    by (simp only: word_of_int_eq_iff take_bit_eq_mod) simp
  then show ?thesis
    unfolding frame_checksum_def to_uchar_def by simp
qed

lemma frame_body_ints:
  "frame_body ids poss n =
     map to_uchar ([0xFE, 4 + 3 * int n, AX_SYNC_WRITE, AX_GOAL_POSITION_L, 2] @
                   chan_ints ids poss n)"
  by (simp add: frame_body_def chan_ints_def map_concat comp_def) (simp add: to_uchar_def)

lemma upt_4: "[0..<4] = [0, Suc 0, 2, 3]"
  by (simp add: upt_rec)

text \<open>
  C1: for every call of \<open>syncWrite\<close> with at most six channels the bytes put on the bus
  are exactly the frame of the interface description: 0xFF, 0xFF, the broadcast address
  0xFE, the length byte \<open>4 + 3 * n\<close>, the sync-write instruction, the address of the
  goal-position low register, the width 2, then for each channel in index order its id
  byte and the low and high byte of its desired position, and last the checksum byte
  \<open>255 - (sum of all bytes after the two 0xFF bytes) mod 256\<close>. Nothing else of the
  state changes.
\<close>

theorem syncWrite_frame:
  assumes "n \<le> SERVOCOUNT"
  shows "syncWrite st n =
           Inr (st\<lparr>bus_out := bus_out st @
                  map Tx (sync_frame (id_arr st) (desired_position st) n)\<rparr>)"
proof -
  let ?ids = "id_arr st" and ?ps = "desired_position st"
  let ?xs = "[0xFE, 4 + 3 * int n, AX_SYNC_WRITE, AX_GOAL_POSITION_L, 2] @ chan_ints ?ids ?ps n"
  have ck: "to_uchar (255 - (260 + (int n * 3 + AX_SYNC_WRITE) + AX_GOAL_POSITION_L
               + sum_list (chan_ints ?ids ?ps n)) smod 256)
            = frame_checksum (map to_uchar ?xs)"
    by (rule checksum_byte) simp
  have ff: "to_uchar 255 = 255" by (simp add: to_uchar_def)
  show ?thesis
    using assms
    by (simp add: syncWrite_def Let_def fold_syncWrite_step ax12write_def sync_frame_def ff
          frame_body_ints ck comp_def)
       (simp add: mult.commute)
qed

text \<open>
  The frame for four channels with ids 1 to 4 and desired positions 100, 200, 300 and
  400, byte by byte; its checksum is 90.
\<close>

theorem syncWrite_frame_witness:
  "(4::nat) \<le> SERVOCOUNT \<and>
   syncWrite (WidowX\<lparr>desired_position := [100, 200, 300, 400, 0, 0]\<rparr>) 4 =
     Inr (WidowX\<lparr>desired_position := [100, 200, 300, 400, 0, 0],
            bus_out := map Tx
              [0xFF, 0xFF, 0xFE, 16, 131, 30, 2,
               1, 100, 0, 2, 200, 0, 3, 44, 1, 4, 144, 1, 90]\<rparr>)"
  using syncWrite_frame [of 4 "WidowX\<lparr>desired_position := [100, 200, 300, 400, 0, 0]\<rparr>"]
  by (simp add: SERVOCOUNT_def WidowX_def sync_frame_def frame_body_def frame_checksum_def
        to_uchar_def AX_SYNC_WRITE_def AX_GOAL_POSITION_L_def upt_4 upt_rec)


subsection \<open>Trajectory polynomial\<close>

lemma cubic_deriv:
  "(cubic [k0, k1, k2, k3] has_real_derivative (k1 + 2 * k2 * x + 3 * k3 * x ^ 2)) (at x)"
proof -
  have c: "cubic [k0, k1, k2, k3] = (\<lambda>x. k0 + k1 * x + k2 * x ^ 2 + k3 * x ^ 3)"
    by (rule ext) (simp add: cubic_def)
  show ?thesis
    unfolding c by (auto intro!: derivative_eq_intros)
qed

text \<open>
  C2: for every start position \<open>p0\<close>, goal position \<open>p1\<close> and duration \<open>T > 0\<close>,
  \<open>cubeInterpolation\<close> on the boundary conditions \<open>(p0, p1, 0, 0)\<close> returns four
  coefficients whose cubic takes the value \<open>p0\<close> at 0 and \<open>p1\<close> at \<open>T\<close> and has derivative
  zero at both ends (exact arithmetic).
\<close>

theorem cubeInterpolation_boundary:
  assumes "0 < T"
  shows "\<exists>w. cubeInterpolation [p0, p1, 0, 0] T = Inr w \<and> length w = 4 \<and>
           cubic w 0 = p0 \<and> cubic w (real_of_int T) = p1 \<and>
           (cubic w has_real_derivative 0) (at 0) \<and>
           (cubic w has_real_derivative 0) (at (real_of_int T))"
proof -
  define t where "t = real_of_int T"
  have t: "t > 0" using assms by (simp add: t_def)
  define k2 where "k2 = 3 * (p1 - p0) / t ^ 2"
  define k3 where "k3 = - 2 * (p1 - p0) / t ^ 3"
  define w where "w = [p0, 0, k2, k3]"
  have eq: "cubeInterpolation [p0, p1, 0, 0] T = Inr w"
    using assms
    by (simp add: cubeInterpolation_def Let_def mat_vec_def w_def k2_def k3_def t_def field_simps)
  have d0: "(cubic w has_real_derivative 0) (at 0)"
    using cubic_deriv[of p0 0 k2 k3 0] by (simp add: w_def)
  have "0 + 2 * k2 * t + 3 * k3 * t ^ 2 = 0"
    using t by (simp add: k2_def k3_def field_simps power2_eq_square power3_eq_cube)
  then have dT: "(cubic w has_real_derivative 0) (at t)"
    using cubic_deriv[of p0 0 k2 k3 t] by (simp add: w_def)
  have v0: "cubic w 0 = p0" by (simp add: cubic_def w_def)
  have vT: "cubic w t = p1"
    using t by (simp add: cubic_def w_def k2_def k3_def field_simps power2_eq_square power3_eq_cube)
  show ?thesis
    using eq d0 dT v0 vT by (auto simp: w_def t_def)
qed

theorem cubeInterpolation_boundary_witness:
  "(0::int) < 2000 \<and>
   (\<exists>w. cubeInterpolation [512, 2048, 0, 0] 2000 = Inr w \<and> length w = 4 \<and>
           cubic w 0 = 512 \<and> cubic w 2000 = 2048 \<and>
           (cubic w has_real_derivative 0) (at 0) \<and>
           (cubic w has_real_derivative 0) (at 2000))"
  using cubeInterpolation_boundary [of 2000 512 2048] by simp

subsection \<open>Unit conversion\<close>

lemma c_round_err: "\<bar>real_of_int (c_round x) - x\<bar> \<le> 1 / 2"
proof (cases "0 \<le> x")
  case True
  have "real_of_int \<lfloor>x + 1 / 2\<rfloor> \<le> x + 1 / 2" "x + 1 / 2 < real_of_int \<lfloor>x + 1 / 2\<rfloor> + 1"
    by linarith+
  then have "\<bar>real_of_int \<lfloor>x + 1 / 2\<rfloor> - x\<bar> \<le> 1 / 2" by linarith
  then show ?thesis using True by (simp add: c_round_def)
next
  case False
  have "x - 1 / 2 \<le> real_of_int \<lceil>x - 1 / 2\<rceil>" "real_of_int \<lceil>x - 1 / 2\<rceil> < x - 1 / 2 + 1"
    by linarith+
  then have "\<bar>real_of_int \<lceil>x - 1 / 2\<rceil> - x\<bar> \<le> 1 / 2" by linarith
  then show ?thesis using False by (simp add: c_round_def)
qed

lemma pi_lt_4: "pi < 4"
  using pi_half_less_two by simp

lemma roundtrip_linear:
  fixes k1 k2 c a :: real
  assumes k1: "0 < k1" and inv: "\<bar>k1 * k2 - 1\<bar> * 4 \<le> k1 / 2" and a: "\<bar>a\<bar> \<le> 4"
  shows "\<bar>k1 * (real_of_int (c_round (k2 * a + c)) - c) - a\<bar> \<le> k1"
proof -
  define d where "d = real_of_int (c_round (k2 * a + c)) - (k2 * a + c)"
  have d: "\<bar>d\<bar> \<le> 1 / 2" unfolding d_def by (rule c_round_err)
  have eq: "k1 * (real_of_int (c_round (k2 * a + c)) - c) - a = (k1 * k2 - 1) * a + k1 * d"
    by (simp add: d_def algebra_simps)
  have "\<bar>(k1 * k2 - 1) * a\<bar> \<le> \<bar>k1 * k2 - 1\<bar> * 4"
    using a by (simp add: abs_mult mult_left_mono)
  moreover have "\<bar>k1 * d\<bar> \<le> k1 * (1 / 2)"
    using d k1 by (simp add: abs_mult)
  ultimately show ?thesis
    unfolding eq using inv by linarith
qed

lemma roundtrip_linear_neg:
  fixes k1 k2 c a :: real
  assumes k1: "0 < k1" and inv: "\<bar>k1 * k2 - 1\<bar> * 4 \<le> k1 / 2" and a: "\<bar>a\<bar> \<le> 4"
  shows "\<bar>- k1 * (real_of_int (c_round (- k2 * a + c)) - c) - a\<bar> \<le> k1"
proof -
  have "\<bar>k1 * (real_of_int (c_round (k2 * (- a) + c)) - c) - (- a)\<bar> \<le> k1"
    by (rule roundtrip_linear[OF k1 inv]) (use a in simp)
  moreover have "- k1 * (real_of_int (c_round (- k2 * a + c)) - c) - a =
                 - (k1 * (real_of_int (c_round (k2 * (- a) + c)) - c) - (- a))"
    by simp
  ultimately show ?thesis by (simp only: abs_minus)
qed

text \<open>
  C3: for every channel index 0 to 5 and every angle in the range of the channel's
  family, converting the angle to a raw count and back recovers it to within the angle
  of one raw count (exact arithmetic).
\<close>

theorem angle_roundtrip:
  assumes "0 \<le> idx" "idx \<le> 5" "in_family_range idx a"
  shows "\<bar>positionToAngle idx (angleToPosition idx a) - a\<bar> \<le> count_angle idx"
proof -
  have a4: "\<bar>a\<bar> \<le> 4"
    using assms(3) pi_lt_4 pi_gt_zero by (auto simp: in_family_range_def split: if_splits)
  have A: "\<bar>0.00153435538637 * (real_of_int (c_round (651.739492 * a + 2047.5)) - 2047.5) - a\<bar>
            \<le> 0.00153435538637"
    by (rule roundtrip_linear[OF _ _ a4]) simp_all
  have A': "\<bar>- 0.00153435538637 * (real_of_int (c_round (- 651.739492 * a + 2047.5)) - 2047.5) - a\<bar>
            \<le> 0.00153435538637"
    by (rule roundtrip_linear_neg[OF _ _ a4]) simp_all
  have B: "\<bar>0.00511826979472 * (real_of_int (c_round (195.378524405 * a + 511.5)) - 511.5) - a\<bar>
            \<le> 0.00511826979472"
    by (rule roundtrip_linear[OF _ _ a4]) simp_all
  show ?thesis
    using A A' B
    by (auto simp: positionToAngle_def angleToPosition_def count_angle_def)
qed

theorem angle_roundtrip_witness:
  "(0::int) \<le> 4 \<and> (4::int) \<le> 5 \<and> in_family_range 4 1 \<and>
   \<bar>positionToAngle 4 (angleToPosition 4 1) - 1\<bar> \<le> count_angle 4"
proof -
  have "in_family_range 4 1"
    using pi_ge_two by (simp add: in_family_range_def)
  then show ?thesis
    using angle_roundtrip [of 4 1] by simp
qed

subsection \<open>Channel id handlers\<close>

lemma setId_out_of_range:
  "idx < 0 \<or> int SERVOCOUNT \<le> idx \<Longrightarrow> setId st idx newID = st"
  by (auto simp: setId_def)

lemma getId_in_range:
  "0 \<le> idx \<Longrightarrow> idx < int (length (id_arr st)) \<Longrightarrow> getId st idx = Inr (id_arr st ! nat idx)"
  by (simp add: getId_def c_read_def)

text \<open>
  C9: \<open>setId\<close> checks the index and leaves the id array alone when it is outside 0 to 5,
  but \<open>getId\<close> indexes the array without a check: on the freshly constructed controller
  \<open>getId(6)\<close> reads behind the six entries of the id array.
\<close>

theorem getId_reads_out_of_bounds:
  "getId WidowX 6 = Inl (Out_of_bounds 6) \<and> setId WidowX 6 16 = WidowX"
  by (simp add: getId_def c_read_def setId_def WidowX_def SERVOCOUNT_def)

subsection \<open>Reading positions\<close>

lemma retry_shape:
  "\<exists>x n. snd (getServoPosition_retry w k i st) =
         st\<lparr>current_position := (current_position st)[k := x], bus_reads := n\<rparr>"
proof (induction w k i st rule: getServoPosition_retry.induct)
  case (1 w k i st)
  show ?case
  proof (cases "i < 10")
    case False
    have "snd (getServoPosition_retry w k i st) = st"
      using False by (subst getServoPosition_retry.simps) simp
    then show ?thesis
      by (intro exI[of _ "current_position st ! k"] exI[of _ "bus_reads st"]) simp
  next
    case True
    let ?st1 = "read_position w k st"
    show ?thesis
    proof (cases "current_position ?st1 ! k \<noteq> - 1")
      case ok: True
      have "snd (getServoPosition_retry w k i st) = ?st1"
        using True ok by (subst getServoPosition_retry.simps) (simp add: Let_def)
      then show ?thesis
        by (auto simp: read_position_def)
    next
      case bad: False
      have eq: "getServoPosition_retry w k i st = getServoPosition_retry w k (Suc i) ?st1"
        using True bad by (subst getServoPosition_retry.simps) (simp add: Let_def)
      from 1[OF True refl] bad obtain x n where
        "snd (getServoPosition_retry w k (Suc i) ?st1) =
           ?st1\<lparr>current_position := (current_position ?st1)[k := x], bus_reads := n\<rparr>"
        by auto
      then show ?thesis
        unfolding eq by (auto simp: read_position_def)
    qed
  qed
qed


lemma body_shape:
  "\<exists>x n. getServoPosition_body w st k =
     ((current_position st)[k := x] ! k,
      st\<lparr>current_position := (current_position st)[k := x], bus_reads := n,
         current_angle := (current_angle st)
            [k := positionToAngle (int k) ((current_position st)[k := x] ! k)]\<rparr>)"
proof -
  let ?st1 = "read_position w k st"
  obtain x n where r: "snd (getServoPosition_retry w k (Suc 0) ?st1) =
         ?st1\<lparr>current_position := (current_position ?st1)[k := x], bus_reads := n\<rparr>"
    using retry_shape by blast
  obtain i st2 where p: "getServoPosition_retry w k (Suc 0) ?st1 = (i, st2)"
    by (cases "getServoPosition_retry w k (Suc 0) ?st1")
  have st2: "st2 = st\<lparr>current_position := (current_position st)[k := x], bus_reads := n\<rparr>"
    using r p by (simp add: read_position_def)
  show ?thesis
  proof (cases "current_position ?st1 ! k = - 1")
    case False
    then show ?thesis
      by (intro exI[of _ "GetPosition w (bus_reads st) (id_arr st ! k)"] exI[of _ "Suc (bus_reads st)"])
         (simp add: getServoPosition_body_def Let_def read_position_def)
  next
    case True
    show ?thesis
    proof (cases "i = 10")
      case True
      with \<open>current_position ?st1 ! k = - 1\<close> show ?thesis
        by (intro exI[of _ "current_position st ! k mod 65536"] exI[of _ n])
           (simp add: getServoPosition_body_def Let_def p st2)
    next
      case False
      with \<open>current_position ?st1 ! k = - 1\<close> show ?thesis
        by (intro exI[of _ x] exI[of _ n])
           (simp add: getServoPosition_body_def Let_def p st2)
    qed
  qed
qed

lemma getCurrentPosition_upto:
  assumes "m \<le> length (current_position st)" "length (current_angle st) = length (current_position st)"
  shows "\<exists>cp n ang. fold (\<lambda>i st. snd (getServoPosition_body w st i)) [0..<m] st =
            st\<lparr>current_position := cp, bus_reads := n, current_angle := ang\<rparr> \<and>
          length cp = length (current_position st) \<and> length ang = length (current_angle st) \<and>
          (\<forall>i<m. ang ! i = positionToAngle (int i) (cp ! i))"
  using assms
proof (induction m)
  case 0
  show ?case
    by (intro exI[of _ "current_position st"] exI[of _ "bus_reads st"] exI[of _ "current_angle st"]) simp
next
  case (Suc m)
  then obtain cp n ang where
    f: "fold (\<lambda>i st. snd (getServoPosition_body w st i)) [0..<m] st =
            st\<lparr>current_position := cp, bus_reads := n, current_angle := ang\<rparr>"
    and l: "length cp = length (current_position st)" "length ang = length (current_angle st)"
    and c: "\<forall>i<m. ang ! i = positionToAngle (int i) (cp ! i)"
    by auto
  let ?s = "st\<lparr>current_position := cp, bus_reads := n, current_angle := ang\<rparr>"
  obtain x n' where b: "snd (getServoPosition_body w ?s m) =
      ?s\<lparr>current_position := (current_position ?s)[m := x], bus_reads := n',
         current_angle := (current_angle ?s)
            [m := positionToAngle (int m) ((current_position ?s)[m := x] ! m)]\<rparr>"
    using body_shape[of w ?s m] by (metis snd_conv)
  have m: "m < length cp" "m < length ang" using Suc.prems l by auto
  have step: "fold (\<lambda>i st. snd (getServoPosition_body w st i)) [0..<Suc m] st =
        st\<lparr>current_position := cp[m := x], bus_reads := n',
           current_angle := ang[m := positionToAngle (int m) x]\<rparr>"
    using m by (simp add: f b)
  have cons: "ang[m := positionToAngle (int m) x] ! i = positionToAngle (int i) (cp[m := x] ! i)"
    if "i < Suc m" for i
  proof (cases "i = m")
    case True
    then show ?thesis using m by simp
  next
    case False
    then have "i < m" using that by simp
    then show ?thesis using c False by simp
  qed
  show ?case
    using step l cons by (intro exI[of _ "cp[m := x]"] exI[of _ n']
        exI[of _ "ang[m := positionToAngle (int m) x]"]) simp
qed


lemma retry_finds:
  assumes "i + m < 10"
      and "\<forall>j<m. GetPosition w (bus_reads st + j) (id_arr st ! k) = - 1"
      and "GetPosition w (bus_reads st + m) (id_arr st ! k) \<noteq> - 1"
      and "k < length (current_position st)"
  shows "getServoPosition_retry w k i st =
           (i + m, st\<lparr>current_position :=
                        (current_position st)[k := GetPosition w (bus_reads st + m) (id_arr st ! k)],
                      bus_reads := bus_reads st + Suc m\<rparr>)"
  using assms
proof (induction m arbitrary: i st)
  case 0
  then show ?case
    by (subst getServoPosition_retry.simps) (simp add: Let_def read_position_def)
next
  case (Suc m)
  let ?st1 = "read_position w k st"
  have "GetPosition w (bus_reads st + 0) (id_arr st ! k) = - 1"
    using Suc.prems(2) by blast
  then have bad: "current_position ?st1 ! k = - 1"
    using Suc.prems by (simp add: read_position_def)
  have eq: "getServoPosition_retry w k i st = getServoPosition_retry w k (Suc i) ?st1"
    using Suc.prems bad by (subst getServoPosition_retry.simps) (simp add: Let_def)
  have "getServoPosition_retry w k (Suc i) ?st1 =
          (Suc i + m, ?st1\<lparr>current_position :=
                        (current_position ?st1)[k := GetPosition w (bus_reads ?st1 + m) (id_arr ?st1 ! k)],
                      bus_reads := bus_reads ?st1 + Suc m\<rparr>)"
  proof (rule Suc.IH)
    show "Suc i + m < 10" using Suc.prems by simp
    have "GetPosition w (bus_reads st + Suc j) (id_arr st ! k) = - 1" if "j < m" for j
      using Suc.prems(2) that by (meson Suc_less_eq)
    then show "\<forall>j<m. GetPosition w (bus_reads ?st1 + j) (id_arr ?st1 ! k) = - 1"
      by (simp add: read_position_def)
    show "GetPosition w (bus_reads ?st1 + m) (id_arr ?st1 ! k) \<noteq> - 1"
      using Suc.prems(3) by (simp add: read_position_def)
    show "k < length (current_position ?st1)"
      using Suc.prems(4) by (simp add: read_position_def)
  qed
  then show ?case
    unfolding eq by (simp add: read_position_def)
qed

lemma retry_exhausts:
  assumes "i + m = 10"
      and "\<forall>j<m. GetPosition w (bus_reads st + j) (id_arr st ! k) = - 1"
      and "k < length (current_position st)"
  shows "fst (getServoPosition_retry w k i st) = 10"
  using assms
proof (induction m arbitrary: i st)
  case 0
  then show ?case
    by (subst getServoPosition_retry.simps) simp
next
  case (Suc m)
  let ?st1 = "read_position w k st"
  have "GetPosition w (bus_reads st + 0) (id_arr st ! k) = - 1"
    using Suc.prems(2) by blast
  then have bad: "current_position ?st1 ! k = - 1"
    using Suc.prems by (simp add: read_position_def)
  have eq: "getServoPosition_retry w k i st = getServoPosition_retry w k (Suc i) ?st1"
    using Suc.prems bad by (subst getServoPosition_retry.simps) (simp add: Let_def)
  have "fst (getServoPosition_retry w k (Suc i) ?st1) = 10"
  proof (rule Suc.IH)
    show "Suc i + m = 10" using Suc.prems by simp
    have "GetPosition w (bus_reads st + Suc j) (id_arr st ! k) = - 1" if "j < m" for j
      using Suc.prems(2) that by (meson Suc_less_eq)
    then show "\<forall>j<m. GetPosition w (bus_reads ?st1 + j) (id_arr ?st1 ! k) = - 1"
      by (simp add: read_position_def)
    show "k < length (current_position ?st1)"
      using Suc.prems(3) by (simp add: read_position_def)
  qed
  then show ?case unfolding eq .
qed

lemma retry_result:
  assumes "k < length (current_position st)" "i \<le> 10"
  shows "fst (getServoPosition_retry w k i st) \<noteq> 10 \<longrightarrow>
         current_position (snd (getServoPosition_retry w k i st)) ! k \<noteq> - 1"
  using assms
proof (induction w k i st rule: getServoPosition_retry.induct)
  case (1 w k i st)
  let ?st1 = "read_position w k st"
  show ?case
  proof (cases "i < 10")
    case False
    then have "getServoPosition_retry w k i st = (i, st)"
      by (subst getServoPosition_retry.simps) simp
    moreover have "i = 10" using False 1(3) by simp
    ultimately show ?thesis by simp
  next
    case True
    show ?thesis
    proof (cases "current_position ?st1 ! k \<noteq> - 1")
      case ok: True
      have "getServoPosition_retry w k i st = (i, ?st1)"
        using True ok by (subst getServoPosition_retry.simps) (simp add: Let_def)
      then show ?thesis using ok by simp
    next
      case bad: False
      have eq: "getServoPosition_retry w k i st = getServoPosition_retry w k (Suc i) ?st1"
        using True bad by (subst getServoPosition_retry.simps) (simp add: Let_def)
      have "k < length (current_position ?st1)"
        using 1(2) by (simp add: read_position_def)
      moreover have "Suc i \<le> 10" using True by simp
      ultimately show ?thesis
        using 1(1)[OF True refl] bad unfolding eq by simp
    qed
  qed
qed

lemma body_first_valid:
  assumes "GetPosition w (bus_reads st) (id_arr st ! k) \<noteq> - 1" "k < length (current_position st)"
  shows "\<exists>st'. getServoPosition_body w st k = (GetPosition w (bus_reads st) (id_arr st ! k), st') \<and>
               current_position st' ! k = GetPosition w (bus_reads st) (id_arr st ! k)"
  using assms by (simp add: getServoPosition_body_def Let_def read_position_def)

lemma body_retry_valid:
  assumes "Suc m < 10"
      and "\<forall>j<Suc m. GetPosition w (bus_reads st + j) (id_arr st ! k) = - 1"
      and "GetPosition w (bus_reads st + Suc m) (id_arr st ! k) \<noteq> - 1"
      and "k < length (current_position st)"
  shows "\<exists>st'. getServoPosition_body w st k = (GetPosition w (bus_reads st + Suc m) (id_arr st ! k), st') \<and>
               current_position st' ! k = GetPosition w (bus_reads st + Suc m) (id_arr st ! k)"
proof -
  let ?st1 = "read_position w k st"
  have "GetPosition w (bus_reads st + 0) (id_arr st ! k) = - 1"
    using assms(2) by blast
  then have bad: "current_position ?st1 ! k = - 1"
    using assms(4) by (simp add: read_position_def)
  have sh: "GetPosition w (bus_reads st + Suc j) (id_arr st ! k) = - 1" if "j < m" for j
    using assms(2) that by (meson Suc_less_eq)
  have "getServoPosition_retry w k (Suc 0) ?st1 =
          (Suc 0 + m, ?st1\<lparr>current_position :=
                        (current_position ?st1)[k := GetPosition w (bus_reads ?st1 + m) (id_arr ?st1 ! k)],
                      bus_reads := bus_reads ?st1 + Suc m\<rparr>)"
  proof (rule retry_finds)
    show "Suc 0 + m < 10" using assms(1) by simp
    show "\<forall>j<m. GetPosition w (bus_reads ?st1 + j) (id_arr ?st1 ! k) = - 1"
      using sh by (simp add: read_position_def)
    show "GetPosition w (bus_reads ?st1 + m) (id_arr ?st1 ! k) \<noteq> - 1"
      using assms(3) by (simp add: read_position_def)
    show "k < length (current_position ?st1)"
      using assms(4) by (simp add: read_position_def)
  qed
  then show ?thesis
    using bad assms(1,4)
    by (simp add: getServoPosition_body_def Let_def) (simp add: read_position_def)
qed

lemma body_all_fail:
  assumes "\<forall>j<10. GetPosition w (bus_reads st + j) (id_arr st ! k) = - 1"
      and "k < length (current_position st)"
  shows "\<exists>st'. getServoPosition_body w st k = (current_position st ! k mod 65536, st') \<and>
               current_position st' ! k = current_position st ! k mod 65536"
proof -
  let ?st1 = "read_position w k st"
  have "GetPosition w (bus_reads st + 0) (id_arr st ! k) = - 1"
    using assms(1) by (meson zero_less_numeral)
  then have bad: "current_position ?st1 ! k = - 1"
    using assms(2) by (simp add: read_position_def)
  have sh: "GetPosition w (bus_reads st + Suc j) (id_arr st ! k) = - 1" if "j < 9" for j
    using assms(1)[rule_format, of "Suc j"] that by simp
  have ex: "fst (getServoPosition_retry w k (Suc 0) ?st1) = 10"
  proof (rule retry_exhausts[where m = 9])
    show "Suc 0 + 9 = 10" by simp
    show "\<forall>j<9. GetPosition w (bus_reads ?st1 + j) (id_arr ?st1 ! k) = - 1"
      using sh by (simp add: read_position_def)
    show "k < length (current_position ?st1)"
      using assms(2) by (simp add: read_position_def)
  qed
  obtain x n where sp: "snd (getServoPosition_retry w k (Suc 0) ?st1) =
         ?st1\<lparr>current_position := (current_position ?st1)[k := x], bus_reads := n\<rparr>"
    using retry_shape by blast
  obtain i st2 where p: "getServoPosition_retry w k (Suc 0) ?st1 = (i, st2)"
    by (cases "getServoPosition_retry w k (Suc 0) ?st1")
  show ?thesis
    using bad ex sp p assms(2)
    by (simp add: getServoPosition_body_def Let_def) (simp add: read_position_def)
qed

lemma body_never_sentinel:
  assumes "k < length (current_position st)" "current_position st ! k mod 65536 \<noteq> - 1"
  shows "fst (getServoPosition_body w st k) \<noteq> - 1 \<and>
         current_position (snd (getServoPosition_body w st k)) ! k = fst (getServoPosition_body w st k)"
proof -
  let ?st1 = "read_position w k st"
  have len1: "k < length (current_position ?st1)"
    using assms(1) by (simp add: read_position_def)
  obtain x n where sp: "snd (getServoPosition_retry w k (Suc 0) ?st1) =
         ?st1\<lparr>current_position := (current_position ?st1)[k := x], bus_reads := n\<rparr>"
    using retry_shape by blast
  obtain i st2 where p: "getServoPosition_retry w k (Suc 0) ?st1 = (i, st2)"
    by (cases "getServoPosition_retry w k (Suc 0) ?st1")
  have len2: "k < length (current_position st2)"
    using sp p assms(1) by (simp add: read_position_def)
  have res: "i \<noteq> 10 \<longrightarrow> current_position st2 ! k \<noteq> - 1"
    using retry_result[OF len1, of "Suc 0" w] p by simp
  show ?thesis
  proof (cases "current_position ?st1 ! k = - 1")
    case False
    then show ?thesis
      using len1 by (simp add: getServoPosition_body_def Let_def)
  next
    case True
    then show ?thesis
      using res len2 assms(2) by (simp add: getServoPosition_body_def Let_def p)
  qed
qed

text \<open>
  C8: let the cached position of a channel 0 to 5 be a raw count (between 0 and 65535).
  If the bus answers the failure sentinel \<open>-1\<close> to the next \<open>N < 10\<close> reads and then a
  valid value, \<open>getServoPosition\<close> stores and returns that value; if it answers the
  sentinel to the next 10 reads, \<open>getServoPosition\<close> stores and returns the cached
  position; in every case it returns, and the position it stores and returns is not the
  sentinel.
\<close>

theorem getServoPosition_retry_fallback:
  assumes idx: "0 \<le> idx" "idx < int SERVOCOUNT"
      and wf: "well_formed st"
      and cached: "0 \<le> current_position st ! nat idx" "current_position st ! nat idx < 65536"
  shows "(N < 10 \<and> (\<forall>j<N. GetPosition w (bus_reads st + j) (id_arr st ! nat idx) = - 1) \<and>
          GetPosition w (bus_reads st + N) (id_arr st ! nat idx) \<noteq> - 1
          \<longrightarrow> (\<exists>st'. getServoPosition w st idx =
                        Inr (GetPosition w (bus_reads st + N) (id_arr st ! nat idx), st') \<and>
                      current_position st' ! nat idx =
                        GetPosition w (bus_reads st + N) (id_arr st ! nat idx)))
       \<and> ((\<forall>j<10. GetPosition w (bus_reads st + j) (id_arr st ! nat idx) = - 1)
          \<longrightarrow> (\<exists>st'. getServoPosition w st idx = Inr (current_position st ! nat idx, st') \<and>
                      current_position st' ! nat idx = current_position st ! nat idx))
       \<and> (\<exists>r st'. getServoPosition w st idx = Inr (r, st') \<and> r \<noteq> - 1 \<and>
                   current_position st' ! nat idx = r)"
proof -
  let ?k = "nat idx"
  have k: "?k < length (current_position st)"
    using idx wf by (simp add: well_formed_def)
  have g: "getServoPosition w st idx = Inr (getServoPosition_body w st ?k)"
    using idx by (simp add: getServoPosition_def)
  have prev: "current_position st ! ?k mod 65536 = current_position st ! ?k"
    using cached by simp
  have one: "\<exists>st'. getServoPosition_body w st ?k =
                 (GetPosition w (bus_reads st + N) (id_arr st ! ?k), st') \<and>
               current_position st' ! ?k = GetPosition w (bus_reads st + N) (id_arr st ! ?k)"
    if "N < 10" "\<forall>j<N. GetPosition w (bus_reads st + j) (id_arr st ! ?k) = - 1"
       "GetPosition w (bus_reads st + N) (id_arr st ! ?k) \<noteq> - 1"
  proof (cases N)
    case 0
    then show ?thesis using body_first_valid[OF _ k, of w] that by simp
  next
    case (Suc m)
    then show ?thesis using body_retry_valid[OF _ _ _ k, of m w] that by simp
  qed
  have two: "\<exists>st'. getServoPosition_body w st ?k = (current_position st ! ?k, st') \<and>
               current_position st' ! ?k = current_position st ! ?k"
    if "\<forall>j<10. GetPosition w (bus_reads st + j) (id_arr st ! ?k) = - 1"
    using body_all_fail[OF that k] prev by simp
  have "current_position st ! ?k mod 65536 \<noteq> - 1"
    using cached prev by simp
  from body_never_sentinel[OF k this, of w]
  have three: "\<exists>r st'. getServoPosition_body w st ?k = (r, st') \<and> r \<noteq> - 1 \<and>
                   current_position st' ! ?k = r"
    by (cases "getServoPosition_body w st ?k") simp
  show ?thesis
    unfolding g using one two three by simp
qed

lemma well_formed_WidowX: "well_formed WidowX"
  by (simp add: well_formed_def WidowX_def SERVOCOUNT_def)

theorem getServoPosition_retry_fallback_witness:
  "(0::int) \<le> 2 \<and> (2::int) < int SERVOCOUNT \<and>
   well_formed (WidowX\<lparr>current_position := [0, 0, 1500, 0, 0, 0]\<rparr>) \<and>
   (\<exists>st'. getServoPosition (flaky_bus 3 2048) (WidowX\<lparr>current_position := [0, 0, 1500, 0, 0, 0]\<rparr>) 2
            = Inr (2048, st') \<and> current_position st' ! 2 = 2048) \<and>
   (\<exists>st'. getServoPosition dead_bus (WidowX\<lparr>current_position := [0, 0, 1500, 0, 0, 0]\<rparr>) 2
            = Inr (1500, st') \<and> current_position st' ! 2 = 1500)"
proof -
  let ?st = "WidowX\<lparr>current_position := [0, 0, 1500, 0, 0, 0]\<rparr>"
  have wf: "well_formed ?st"
    by (simp add: well_formed_def WidowX_def SERVOCOUNT_def)
  have r: "(2::int) < int SERVOCOUNT" by (simp add: SERVOCOUNT_def)
  have c: "0 \<le> current_position ?st ! nat 2" "current_position ?st ! nat 2 < 65536"
    by (simp_all add: numeral_2_eq_2)
  note t1 = getServoPosition_retry_fallback [OF _ r wf c, where w = "flaky_bus 3 2048" and N = 3, simplified]
  note t2 = getServoPosition_retry_fallback [OF _ r wf c, where w = dead_bus and N = 3, simplified]
  have a: "\<exists>st'. getServoPosition (flaky_bus 3 2048) ?st 2 = Inr (2048, st') \<and> current_position st' ! 2 = 2048"
    using t1 by (simp add: flaky_bus_def WidowX_def)
  have b: "\<exists>st'. getServoPosition dead_bus ?st 2 = Inr (1500, st') \<and> current_position st' ! 2 = 1500"
    using t2 by (simp add: dead_bus_def WidowX_def numeral_2_eq_2)
  show ?thesis using wf r a b by simp
qed

text \<open>
  C10: on a controller whose arrays have six entries, after \<open>getServoPosition(idx)\<close> and
  after \<open>getServoAngle(idx)\<close> for \<open>idx\<close> from 0 to 5 the cached angle of the channel is
  \<open>positionToAngle\<close> of its cached position (and \<open>getServoAngle\<close> returns it), and after
  \<open>getCurrentPosition()\<close> this holds for all six channels.
\<close>

theorem cached_angle_consistent:
  assumes wf: "well_formed st"
  shows "(0 \<le> idx \<and> idx < int SERVOCOUNT \<longrightarrow>
            (\<exists>p st'. getServoPosition w st idx = Inr (p, st') \<and> well_formed st' \<and>
                current_angle st' ! nat idx = positionToAngle idx (current_position st' ! nat idx)))
       \<and> (0 \<le> idx \<and> idx < int SERVOCOUNT \<longrightarrow>
            (\<exists>a st'. getServoAngle w st idx = Inr (a, st') \<and> well_formed st' \<and>
                a = current_angle st' ! nat idx \<and>
                current_angle st' ! nat idx = positionToAngle idx (current_position st' ! nat idx)))
       \<and> (well_formed (getCurrentPosition w st) \<and>
          (\<forall>i<SERVOCOUNT. current_angle (getCurrentPosition w st) ! i =
               positionToAngle (int i) (current_position (getCurrentPosition w st) ! i)))"
proof -
  have one: "\<exists>p st'. getServoPosition w st idx = Inr (p, st') \<and> well_formed st' \<and>
                current_angle st' ! nat idx = positionToAngle idx (current_position st' ! nat idx)"
    if "0 \<le> idx" "idx < int SERVOCOUNT"
  proof -
    obtain x n where b: "getServoPosition_body w st (nat idx) =
     ((current_position st)[nat idx := x] ! nat idx,
      st\<lparr>current_position := (current_position st)[nat idx := x], bus_reads := n,
         current_angle := (current_angle st)
            [nat idx := positionToAngle (int (nat idx)) ((current_position st)[nat idx := x] ! nat idx)]\<rparr>)"
      using body_shape by blast
    have k: "nat idx < length (current_position st)" "nat idx < length (current_angle st)"
      using that wf by (simp_all add: well_formed_def)
    show ?thesis
      using that wf k by (simp add: getServoPosition_def b well_formed_def)
  qed
  have two: "\<exists>a st'. getServoAngle w st idx = Inr (a, st') \<and> well_formed st' \<and>
                a = current_angle st' ! nat idx \<and>
                current_angle st' ! nat idx = positionToAngle idx (current_position st' ! nat idx)"
    if "0 \<le> idx" "idx < int SERVOCOUNT"
    using one[OF that] by (auto simp: getServoAngle_def)
  have l: "SERVOCOUNT \<le> length (current_position st)"
          "length (current_angle st) = length (current_position st)"
    using wf by (simp_all add: well_formed_def)
  from getCurrentPosition_upto[OF l, of w]
  have three: "well_formed (getCurrentPosition w st) \<and>
          (\<forall>i<SERVOCOUNT. current_angle (getCurrentPosition w st) ! i =
               positionToAngle (int i) (current_position (getCurrentPosition w st) ! i))"
    using wf unfolding getCurrentPosition_def by (auto simp: well_formed_def)
  show ?thesis using one two three by blast
qed

theorem cached_angle_consistent_witness:
  "well_formed WidowX \<and> (0::int) \<le> 2 \<and> (2::int) < int SERVOCOUNT \<and> (2::nat) < SERVOCOUNT \<and>
   (\<exists>p st'. getServoPosition (flaky_bus 3 2048) WidowX 2 = Inr (p, st') \<and> well_formed st' \<and>
       current_angle st' ! 2 = positionToAngle 2 (current_position st' ! 2)) \<and>
   (\<exists>a st'. getServoAngle (flaky_bus 3 2048) WidowX 2 = Inr (a, st') \<and> well_formed st' \<and>
       a = current_angle st' ! 2 \<and>
       current_angle st' ! 2 = positionToAngle 2 (current_position st' ! 2)) \<and>
   current_angle (getCurrentPosition (flaky_bus 3 2048) WidowX) ! 2 =
     positionToAngle 2 (current_position (getCurrentPosition (flaky_bus 3 2048) WidowX) ! 2)"
proof -
  have r: "(2::int) < int SERVOCOUNT" "(2::nat) < SERVOCOUNT" by (simp_all add: SERVOCOUNT_def)
  show ?thesis
    using cached_angle_consistent [OF well_formed_WidowX, where idx = 2 and w = "flaky_bus 3 2048"] r well_formed_WidowX
    by (simp add: numeral_2_eq_2)
qed

subsection \<open>Unreachable targets\<close>

lemma D_pos: "0 < D"
  by (simp add: D_def L1_def L2_def)

lemma D_sq: "D ^ 2 = 221"
  by (simp add: D_def L1_def L2_def)

lemma D_less_15: "D < 15"
proof -
  have "sqrt 221 < sqrt (15 ^ 2)" by (rule real_sqrt_less_mono) simp
  then show ?thesis by (simp add: D_def L1_def L2_def)
qed

lemma sa_ca: "sa ^ 2 + ca ^ 2 = 1"
  by (simp add: sa_def ca_def)

lemma sqrt_sum_sq: "(sqrt (x ^ 2 + y ^ 2)) ^ 2 = x ^ 2 + y ^ 2"
  by simp

text \<open>The discriminant of the Q4 solver is negative beyond the reach.\<close>

lemma q4_cond_negative:
  fixes X Z s4 c4 :: real
  assumes far: "(D + L3 + L4) ^ 2 < X ^ 2 + Z ^ 2" and sc: "s4 ^ 2 + c4 ^ 2 = 1"
  shows "(L3 * ca + L4 * ca * c4 + L4 * sa * s4) ^ 2 + (L3 * sa - L4 * ca * s4 + L4 * sa * c4) ^ 2
         - ((X ^ 2 + Z ^ 2 - D ^ 2 - L3 ^ 2 - L4 ^ 2 - 2 * L3 * L4 * c4) / (2 * D)) ^ 2 < 0"
proof -
  define E where "E = 392 + 392 * c4"
  have "c4 ^ 2 \<le> 1"
    using sc zero_le_power2[of s4] by linarith
  then have "c4 ^ 2 \<le> 1 ^ 2" by simp
  then have c4: "c4 \<le> 1"
    by (rule power2_le_imp_le) simp
  have ab: "(L3 * ca + L4 * ca * c4 + L4 * sa * s4) ^ 2 + (L3 * sa - L4 * ca * s4 + L4 * sa * c4) ^ 2
            = 196 * (sa ^ 2 + ca ^ 2) + 196 * (sa ^ 2 + ca ^ 2) * (s4 ^ 2 + c4 ^ 2)
              + 392 * (sa ^ 2 + ca ^ 2) * c4"
    by (simp add: L3_def L4_def power2_eq_square algebra_simps)
  have abE: "(L3 * ca + L4 * ca * c4 + L4 * sa * s4) ^ 2 + (L3 * sa - L4 * ca * s4 + L4 * sa * c4) ^ 2 = E"
    unfolding ab sa_ca sc by (simp add: E_def)
  have E784: "E \<le> 784" using c4 by (simp add: E_def)
  define c where "c = (X ^ 2 + Z ^ 2 - D ^ 2 - L3 ^ 2 - L4 ^ 2 - 2 * L3 * L4 * c4) / (2 * D)"
  have num: "X ^ 2 + Z ^ 2 - D ^ 2 - L3 ^ 2 - L4 ^ 2 - 2 * L3 * L4 * c4 = X ^ 2 + Z ^ 2 - 221 - E"
    by (simp add: D_sq L3_def L4_def E_def)
  have "(D + L3 + L4) ^ 2 = 221 + 56 * D + 784"
    using D_sq by (simp add: L3_def L4_def power2_eq_square algebra_simps)
  then have "56 * D < X ^ 2 + Z ^ 2 - 221 - E"
    using far E784 by simp
  then have "28 * (2 * D) < X ^ 2 + Z ^ 2 - 221 - E" by simp
  then have c28: "28 < c"
    unfolding c_def num using D_pos by (simp add: pos_less_divide_eq)
  have "28 ^ 2 < c ^ 2"
    using c28 by (intro power_strict_mono) simp_all
  then have "E < c ^ 2" using E784 by simp
  then show ?thesis
    unfolding abE c_def by simp
qed

text \<open>The law-of-cosines term of the gamma solvers exceeds 1 beyond the reach.\<close>

lemma gamma_c_large:
  fixes rho z gamma :: real
  assumes far: "D + L3 + L4 < sqrt (rho ^ 2 + z ^ 2)"
  shows "1 < ((rho - L4 * cos gamma) ^ 2 + (z + L4 * sin gamma) ^ 2 - D ^ 2 - L3 ^ 2) / (2 * D * L3)"
proof -
  define r where "r = sqrt (rho ^ 2 + z ^ 2)"
  define l where "l = rho * cos gamma - z * sin gamma"
  have r2: "r ^ 2 = rho ^ 2 + z ^ 2" by (simp add: r_def)
  have r: "D + 28 < r" using far by (simp add: r_def L3_def L4_def)
  have r0: "0 \<le> r" by (simp add: r_def)
  have "(rho * c - z * s) ^ 2 + (rho * s + z * c) ^ 2 = (rho ^ 2 + z ^ 2) * (s ^ 2 + c ^ 2)"
    for s c :: real
    by (simp add: power2_eq_square algebra_simps)
  from this[of "cos gamma" "sin gamma"]
  have "l ^ 2 + (rho * sin gamma + z * cos gamma) ^ 2 = r ^ 2"
    by (simp add: r2 l_def)
  then have "l ^ 2 \<le> r ^ 2"
    using zero_le_power2[of "rho * sin gamma + z * cos gamma"] by linarith
  then have l: "l \<le> r" using r0 by (rule power2_le_imp_le)
  have "(rho - 14 * c) ^ 2 + (z + 14 * s) ^ 2
          = (rho ^ 2 + z ^ 2) + 196 * (s ^ 2 + c ^ 2) - 28 * (rho * c - z * s)"
    for s c :: real
    by (simp add: power2_eq_square algebra_simps)
  from this[of "cos gamma" "sin gamma"]
  have XZ: "(rho - L4 * cos gamma) ^ 2 + (z + L4 * sin gamma) ^ 2 = r ^ 2 + 196 - 28 * l"
    by (simp add: r2 l_def L4_def)
  have "(D + 14) ^ 2 < (r - 14) ^ 2"
    using r D_pos by (intro power_strict_mono) simp_all
  moreover have "(r - 14) ^ 2 = r ^ 2 + 196 - 28 * r"
    by (simp add: power2_eq_square algebra_simps)
  moreover have "(D + 14) ^ 2 = 221 + 28 * D + 196"
    using D_sq by (simp add: power2_eq_square algebra_simps)
  ultimately have "221 + 28 * D + 196 < r ^ 2 + 196 - 28 * l"
    using l by simp
  then have "1 * (2 * D * L3) < (rho - L4 * cos gamma) ^ 2 + (z + L4 * sin gamma) ^ 2 - D ^ 2 - L3 ^ 2"
    unfolding XZ by (simp add: D_sq L3_def)
  then show ?thesis
    using D_pos by (simp add: pos_less_divide_eq L3_def)
qed

lemma far_squared:
  assumes "D + L3 + L4 < sqrt (Px ^ 2 + Py ^ 2 + (Pz - L0) ^ 2)"
  shows "(D + L3 + L4) ^ 2 < (sqrt (Px ^ 2 + Py ^ 2)) ^ 2 + (Pz - L0) ^ 2"
proof -
  have "0 \<le> D + L3 + L4" using D_pos by (simp add: L3_def L4_def)
  then have "(D + L3 + L4) ^ 2 < (sqrt (Px ^ 2 + Py ^ 2 + (Pz - L0) ^ 2)) ^ 2"
    using assms by (intro power_strict_mono) simp_all
  then show ?thesis by simp
qed

lemma getIK_Q4_far:
  assumes "D + L3 + L4 < sqrt (Px ^ 2 + Py ^ 2 + (Pz - L0) ^ 2)"
  shows "fst (getIK_Q4 st Px Py Pz) = 1"
proof -
  have "(sin (current_angle st ! 3)) ^ 2 + (cos (current_angle st ! 3)) ^ 2 = 1" by simp
  from q4_cond_negative[OF far_squared[OF assms] this]
  show ?thesis
    by (simp add: getIK_Q4_def Let_def)
qed

lemma getIK_Gamma_far:
  assumes "D + L3 + L4 < sqrt (Px ^ 2 + Py ^ 2 + (Pz - L0) ^ 2)"
  shows "fst (getIK_Gamma st Px Py Pz gamma) = 1"
proof -
  have "D + L3 + L4 < sqrt ((sqrt (Px ^ 2 + Py ^ 2)) ^ 2 + (Pz - L0) ^ 2)"
    using assms by simp
  from gamma_c_large[OF this, of gamma]
  have "1 < \<bar>((sqrt (Px ^ 2 + Py ^ 2) - L4 * cos gamma) ^ 2 + (Pz - L0 + L4 * sin gamma) ^ 2
              - D ^ 2 - L3 ^ 2) / (2 * D * L3)\<bar>"
    by linarith
  then show ?thesis
    by (simp add: getIK_Gamma_def Let_def)
qed

lemma getIK_Gamma_Controller_far:
  assumes "D + L3 + L4 < sqrt (Px ^ 2 + Py ^ 2 + (Pz - L0) ^ 2)"
  shows "fst (getIK_Gamma_Controller w st Px Py Pz gamma) = 1"
proof -
  have "D + L3 + L4 < sqrt ((sqrt (Px ^ 2 + Py ^ 2)) ^ 2 + (Pz - L0) ^ 2)"
    using assms by simp
  from gamma_c_large[OF this, of gamma]
  have "1 < \<bar>((sqrt (Px ^ 2 + Py ^ 2) - L4 * cos gamma) ^ 2 + (Pz - L0 + L4 * sin gamma) ^ 2
              - D ^ 2 - L3 ^ 2) / (2 * D * L3)\<bar>"
    by linarith
  then show ?thesis
    by (simp add: getIK_Gamma_Controller_def Let_def)
qed

lemma getIK_Rd_far:
  assumes "D + L3 + L4 < sqrt (Px ^ 2 + Py ^ 2 + (Pz - L0) ^ 2)"
  shows "fst (getIK_Rd st Px Py Pz Rd) = 1"
proof -
  obtain r st' where g: "getIK_Gamma st Px Py Pz (atan2 (- (Rd ! 2 ! 0)) (Rd ! 0 ! 0)) = (r, st')"
    by (cases "getIK_Gamma st Px Py Pz (atan2 (- (Rd ! 2 ! 0)) (Rd ! 0 ! 0))")
  have "r = 1"
    using getIK_Gamma_far[OF assms, of st "atan2 (- (Rd ! 2 ! 0)) (Rd ! 0 ! 0)"] g by simp
  then show ?thesis
    by (simp add: getIK_Rd_def Let_def g)
qed

lemma getIK_RdBase_far:
  assumes "D + L3 + L4 < sqrt (Px ^ 2 + Py ^ 2 + (Pz - L0) ^ 2)"
  shows "fst (getIK_RdBase st Px Py Pz RdBase) = 1"
  using getIK_Rd_far[OF assms] by (simp add: getIK_RdBase_def Let_def)

text \<open>
  C7: for every target whose distance from the shoulder,
  \<open>sqrt (Px^2 + Py^2 + (Pz - L0)^2)\<close>, exceeds the reach \<open>D + L3 + L4\<close>, every solver
  returns 1, whatever the state of the arm (so whatever wrist pitch is held), the pitch
  \<open>gamma\<close> and the rotation matrix (exact arithmetic).
\<close>

theorem unreachable_target_fails:
  assumes "D + L3 + L4 < sqrt (Px ^ 2 + Py ^ 2 + (Pz - L0) ^ 2)"
  shows "fst (getIK_Q4 st Px Py Pz) = 1 \<and>
         fst (getIK_Gamma st Px Py Pz gamma) = 1 \<and>
         fst (getIK_Rd st Px Py Pz Rd) = 1 \<and>
         fst (getIK_RdBase st Px Py Pz RdBase) = 1 \<and>
         fst (getIK_Gamma_Controller w st Px Py Pz gamma) = 1"
  using getIK_Q4_far[OF assms] getIK_Gamma_far[OF assms] getIK_Rd_far[OF assms]
        getIK_RdBase_far[OF assms] getIK_Gamma_Controller_far[OF assms]
  by simp

lemma far_1000: "D + L3 + L4 < sqrt (1000 ^ 2 + 0 ^ 2 + (0 - L0) ^ 2)"
proof -
  have "43 = sqrt (43 ^ 2)" by simp
  also have "\<dots> < sqrt (1000 ^ 2 + 0 ^ 2 + (0 - L0) ^ 2)"
    by (rule real_sqrt_less_mono) (simp add: L0_def)
  finally show ?thesis using D_less_15 by (simp add: L3_def L4_def)
qed

theorem unreachable_target_fails_witness:
  "D + L3 + L4 < sqrt (1000 ^ 2 + 0 ^ 2 + (0 - L0) ^ 2) \<and>
   fst (getIK_Q4 WidowX 1000 0 0) = 1 \<and>
   fst (getIK_Gamma WidowX 1000 0 0 0) = 1 \<and>
   fst (getIK_Rd WidowX 1000 0 0 [[1, 0, 0], [0, 1, 0], [0, 0, 1]]) = 1 \<and>
   fst (getIK_RdBase WidowX 1000 0 0 [[1, 0, 0], [0, 1, 0], [0, 0, 1]]) = 1 \<and>
   fst (getIK_Gamma_Controller dead_bus WidowX 1000 0 0 0) = 1"
  using unreachable_target_fails [OF far_1000] far_1000 by simp

subsection \<open>A failed solve changes scratch variables only\<close>

lemma scratch_only_refl: "scratch_only st st"
  by (simp add: scratch_only_def)

lemma scratch_only_trans: "scratch_only st st' \<Longrightarrow> scratch_only st' st'' \<Longrightarrow> scratch_only st st''"
  by (simp add: scratch_only_def)

lemma clear_scratch_fields:
  "desired_angle (clear_scratch st) = desired_angle st"
  "desired_position (clear_scratch st) = desired_position st"
  "bus_out (clear_scratch st) = bus_out st"
  "current_angle (clear_scratch st) = current_angle st"
  "current_position (clear_scratch st) = current_position st"
  "past_current_angle (clear_scratch st) = past_current_angle st"
  "id_arr (clear_scratch st) = id_arr st"
  by (simp_all add: clear_scratch_def)

lemma scratch_only_fields:
  assumes "scratch_only st st'"
  shows "desired_angle st' = desired_angle st"
        "desired_position st' = desired_position st"
        "bus_out st' = bus_out st"
        "current_angle st' = current_angle st"
        "current_position st' = current_position st"
        "past_current_angle st' = past_current_angle st"
        "id_arr st' = id_arr st"
  using assms clear_scratch_fields unfolding scratch_only_def by metis+

lemma scratch_only_desired: "scratch_only st st' \<Longrightarrow> desired_unchanged st st'"
  by (simp add: desired_unchanged_def motion_cmds_def scratch_only_fields)

lemma clear_scratch_upd [simp]:
  "clear_scratch (st\<lparr>glob_a := x\<rparr>) = clear_scratch st"
  "clear_scratch (st\<lparr>glob_b := x\<rparr>) = clear_scratch st"
  "clear_scratch (st\<lparr>glob_c := x\<rparr>) = clear_scratch st"
  "clear_scratch (st\<lparr>glob_cond := x\<rparr>) = clear_scratch st"
  "clear_scratch (st\<lparr>glob_q1 := x\<rparr>) = clear_scratch st"
  "clear_scratch (st\<lparr>glob_q2 := x\<rparr>) = clear_scratch st"
  "clear_scratch (st\<lparr>glob_q3 := x\<rparr>) = clear_scratch st"
  "clear_scratch (st\<lparr>glob_q4 := x\<rparr>) = clear_scratch st"
  "clear_scratch (st\<lparr>glob_q5 := x\<rparr>) = clear_scratch st"
  by (simp_all add: clear_scratch_def)

lemma getIK_Q4_loop_scratch:
  "scratch_only st (snd (getIK_Q4_loop X Z s4 c4 tryTwice st))"
proof (induction X Z s4 c4 tryTwice st rule: getIK_Q4_loop.induct)
  case (1 X Z s4 c4 tryTwice st)
  show ?case
    apply (subst getIK_Q4_loop.simps)
    apply (simp add: Let_def scratch_only_def)
    apply (intro conjI impI)
    using 1[OF refl refl refl refl refl] 
    apply (simp_all add: scratch_only_def Let_def)
    done
qed

lemma getIK_Gamma_loop_scratch:
  "scratch_only st (snd (getIK_Gamma_loop X Z gamma sg tryTwice st))"
proof (induction X Z gamma sg tryTwice st rule: getIK_Gamma_loop.induct)
  case (1 X Z gamma sg tryTwice st)
  show ?case
    apply (subst getIK_Gamma_loop.simps)
    apply (simp add: Let_def scratch_only_def)
    apply (intro conjI impI)
    using 1(1)[OF refl refl refl refl refl] 1(2)[OF refl refl refl refl refl]
    apply (simp_all add: scratch_only_def Let_def)
    done
qed

lemma solver_result_fail:
  "scratch_only st st1 \<Longrightarrow> solver_result st store (1, st1)"
  by (auto simp: solver_result_def)

lemma solver_result_Q4_loop:
  assumes "scratch_only st st0"
  shows "solver_result st store
           (case getIK_Q4_loop X Z s4 c4 t st0 of
              (r, st') \<Rightarrow> if r \<noteq> 0 then (1, st') else (0, store st'))"
proof -
  obtain r st' where l: "getIK_Q4_loop X Z s4 c4 t st0 = (r, st')"
    by (cases "getIK_Q4_loop X Z s4 c4 t st0")
  have "scratch_only st0 st'"
    using getIK_Q4_loop_scratch[of st0 X Z s4 c4 t] l by simp
  then have "scratch_only st st'"
    using assms scratch_only_trans by blast
  then show ?thesis
    by (auto simp: l solver_result_def)
qed

lemma solver_result_Gamma_loop:
  assumes "scratch_only st st0"
  shows "solver_result st store
           (case getIK_Gamma_loop X Z gamma sg t st0 of
              (r, st') \<Rightarrow> if r \<noteq> 0 then (1, st') else (0, store st'))"
proof -
  obtain r st' where l: "getIK_Gamma_loop X Z gamma sg t st0 = (r, st')"
    by (cases "getIK_Gamma_loop X Z gamma sg t st0")
  have "scratch_only st0 st'"
    using getIK_Gamma_loop_scratch[of st0 X Z gamma sg t] l by simp
  then have "scratch_only st st'"
    using assms scratch_only_trans by blast
  then show ?thesis
    by (auto simp: l solver_result_def)
qed

lemma solver_result_if:
  "(c \<Longrightarrow> solver_result st store x) \<Longrightarrow> (\<not> c \<Longrightarrow> solver_result st store y) \<Longrightarrow>
   solver_result st store (if c then x else y)"
  by simp

lemma getIK_Q4_result:
  "solver_result st save_desired_angles (getIK_Q4 st Px Py Pz)"
  unfolding getIK_Q4_def Let_def
  by (intro solver_result_if solver_result_fail solver_result_Q4_loop)
     (simp_all add: scratch_only_def)

lemma getIK_Gamma_result:
  "solver_result st save_desired_angles (getIK_Gamma st Px Py Pz gamma)"
  unfolding getIK_Gamma_def Let_def
  by (intro solver_result_if solver_result_fail solver_result_Gamma_loop)
     (simp_all add: scratch_only_def)

lemma solver_result_failed:
  assumes "solver_result st store res" "fst res = 1"
  shows "scratch_only st (snd res)"
  using assms by (auto simp: solver_result_def)

lemma getIK_Q4_failed:
  "fst (getIK_Q4 st Px Py Pz) = 1 \<Longrightarrow> scratch_only st (snd (getIK_Q4 st Px Py Pz))"
  using getIK_Q4_result by (rule solver_result_failed)

lemma getIK_Gamma_failed:
  "fst (getIK_Gamma st Px Py Pz gamma) = 1 \<Longrightarrow> scratch_only st (snd (getIK_Gamma st Px Py Pz gamma))"
  using getIK_Gamma_result by (rule solver_result_failed)

lemma getIK_Rd_failed:
  assumes "fst (getIK_Rd st Px Py Pz Rd) = 1"
  shows "scratch_only st (snd (getIK_Rd st Px Py Pz Rd))"
proof -
  let ?g = "atan2 (- (Rd ! 2 ! 0)) (Rd ! 0 ! 0)"
  obtain r st' where g: "getIK_Gamma st Px Py Pz ?g = (r, st')"
    by (cases "getIK_Gamma st Px Py Pz ?g")
  have r: "r \<noteq> 0"
    using assms by (auto simp: getIK_Rd_def Let_def g split: if_splits)
  have "r = 1"
    using getIK_Gamma_result[of st Px Py Pz ?g] r by (auto simp: solver_result_def g)
  then have "scratch_only st st'"
    using getIK_Gamma_failed[of st Px Py Pz ?g] g by simp
  then show ?thesis
    using r by (simp add: getIK_Rd_def Let_def g)
qed

lemma getIK_RdBase_failed:
  assumes "fst (getIK_RdBase st Px Py Pz RdBase) = 1"
  shows "scratch_only st (snd (getIK_RdBase st Px Py Pz RdBase))"
proof -
  let ?st = "st\<lparr>glob_q1 := atan2 Py Px\<rparr>"
  let ?Rd = "mat_mul (Invert (rotz (atan2 Py Px))) RdBase"
  have eq: "getIK_RdBase st Px Py Pz RdBase = getIK_Rd ?st Px Py Pz ?Rd"
    by (simp add: getIK_RdBase_def Let_def)
  have "scratch_only ?st (snd (getIK_Rd ?st Px Py Pz ?Rd))"
    using assms unfolding eq by (rule getIK_Rd_failed)
  moreover have "scratch_only st ?st" by (simp add: scratch_only_def)
  ultimately show ?thesis
    unfolding eq using scratch_only_trans by blast
qed

lemma solver_result_case_if:
  "(c \<Longrightarrow> solver_result st store (g x 0)) \<Longrightarrow> (\<not> c \<Longrightarrow> solver_result st store (g y 1)) \<Longrightarrow>
   solver_result st store (case (if c then (x, 0) else (y, 1)) of (s, n) \<Rightarrow> g s n)"
  by simp

lemma getIK_Gamma_Controller_result:
  fixes w st Px Py Pz gamma
  defines "st1 \<equiv> st\<lparr>glob_q1 := atan2 Py Px,
              glob_c := ((sqrt (Px ^ 2 + Py ^ 2) - L4 * cos gamma) ^ 2 + (Pz - L0 + L4 * sin gamma) ^ 2
                          - D ^ 2 - L3 ^ 2) / (2 * D * L3)\<rparr>"
  shows "getIK_Gamma_Controller w st Px Py Pz gamma = (1, st1) \<or>
         solver_result (snd (getServoPosition_body w st1 2)) store_controller
           (getIK_Gamma_Controller w st Px Py Pz gamma)"
proof (cases "\<bar>glob_c st1\<bar> > 1")
  case True
  then show ?thesis
    by (simp add: getIK_Gamma_Controller_def Let_def st1_def)
next
  case False
  have "solver_result (snd (getServoPosition_body w st1 2)) store_controller
           (getIK_Gamma_Controller w st Px Py Pz gamma)"
    unfolding getIK_Gamma_Controller_def Let_def store_controller_def[symmetric] st1_def[symmetric]
    using False
    apply (simp only: if_False)
    apply (intro solver_result_case_if solver_result_if solver_result_fail solver_result_Gamma_loop)
    apply (simp_all add: scratch_only_def)
    done
  then show ?thesis ..
qed

lemma desired_unchanged_refl: "desired_unchanged st st"
  by (simp add: desired_unchanged_def)

lemma desired_unchanged_trans:
  "desired_unchanged st st' \<Longrightarrow> desired_unchanged st' st'' \<Longrightarrow> desired_unchanged st st''"
  by (simp add: desired_unchanged_def)

lemma fold_TorqueOn:
  "fold (\<lambda>i st. TorqueOn (id_arr st ! i) st) [0..<n] st =
     st\<lparr>bus_out := bus_out st @ map (\<lambda>i. Torque_On (id_arr st ! i)) [0..<n]\<rparr>"
  by (induction n) (simp_all add: TorqueOn_def)

lemma torqueServos_desired: "desired_unchanged st (torqueServos st)"
  by (simp add: torqueServos_def fold_TorqueOn desired_unchanged_def motion_cmds_def
        filter_map comp_def)

lemma engage_desired: "desired_unchanged st (if isRelaxed st then torqueServos st else st)"
  by (simp add: torqueServos_desired desired_unchanged_refl)

lemma body_desired: "desired_unchanged st (snd (getServoPosition_body w st k))"
proof -
  obtain x n where "getServoPosition_body w st k =
     ((current_position st)[k := x] ! k,
      st\<lparr>current_position := (current_position st)[k := x], bus_reads := n,
         current_angle := (current_angle st)
            [k := positionToAngle (int k) ((current_position st)[k := x] ! k)]\<rparr>)"
    using body_shape by blast
  then show ?thesis
    by (simp add: desired_unchanged_def motion_cmds_def)
qed

lemma getCurrentPosition_desired: "desired_unchanged st (getCurrentPosition w st)"
proof -
  have "desired_unchanged st (fold (\<lambda>i st. snd (getServoPosition_body w st i)) [0..<n] st)" for n
  proof (induction n)
    case 0
    show ?case by (simp add: desired_unchanged_refl)
  next
    case (Suc n)
    have "fold (\<lambda>i st. snd (getServoPosition_body w st i)) [0..<Suc n] st =
          snd (getServoPosition_body w (fold (\<lambda>i st. snd (getServoPosition_body w st i)) [0..<n] st) n)"
      by simp
    then show ?case
      using desired_unchanged_trans[OF Suc body_desired] by simp
  qed
  then show ?thesis by (simp add: getCurrentPosition_def)
qed

lemma solver_input_desired: "desired_unchanged st (solver_input w st)"
  unfolding solver_input_def
  by (rule desired_unchanged_trans[OF engage_desired getCurrentPosition_desired])

lemma solver_input_timed_desired: "desired_unchanged st (solver_input_timed w st)"
proof -
  let ?e = "if isRelaxed st then torqueServos st else st"
  let ?t = "?e\<lparr>t0 := millis w (clock_reads ?e), clock_reads := Suc (clock_reads ?e)\<rparr>"
  have "desired_unchanged ?e ?t" by (simp add: desired_unchanged_def motion_cmds_def)
  then have "desired_unchanged st ?t"
    by (rule desired_unchanged_trans[OF engage_desired])
  then show ?thesis
    unfolding solver_input_timed_def
    using getCurrentPosition_desired by (rule desired_unchanged_trans)
qed

lemma println_desired: "desired_unchanged st (println s st)"
  by (simp add: println_def desired_unchanged_def motion_cmds_def)

lemma getIK_Gamma_Controller_failed:
  assumes "fst (getIK_Gamma_Controller w st Px Py Pz gamma) = 1"
  shows "desired_unchanged st (snd (getIK_Gamma_Controller w st Px Py Pz gamma))"
proof -
  let ?st1 = "st\<lparr>glob_q1 := atan2 Py Px,
              glob_c := ((sqrt (Px ^ 2 + Py ^ 2) - L4 * cos gamma) ^ 2 + (Pz - L0 + L4 * sin gamma) ^ 2
                          - D ^ 2 - L3 ^ 2) / (2 * D * L3)\<rparr>"
  have d1: "desired_unchanged st ?st1"
    by (simp add: desired_unchanged_def motion_cmds_def)
  from getIK_Gamma_Controller_result[of w st Px Py Pz gamma]
  show ?thesis
  proof
    assume "getIK_Gamma_Controller w st Px Py Pz gamma = (1, ?st1)"
    then show ?thesis using d1 by simp
  next
    assume "solver_result (snd (getServoPosition_body w ?st1 2)) store_controller
              (getIK_Gamma_Controller w st Px Py Pz gamma)"
    then have "scratch_only (snd (getServoPosition_body w ?st1 2))
                 (snd (getIK_Gamma_Controller w st Px Py Pz gamma))"
      using assms by (rule solver_result_failed)
    then have "desired_unchanged (snd (getServoPosition_body w ?st1 2))
                 (snd (getIK_Gamma_Controller w st Px Py Pz gamma))"
      by (rule scratch_only_desired)
    then show ?thesis
      using desired_unchanged_trans[OF desired_unchanged_trans[OF d1 body_desired]] by blast
  qed
qed

text \<open>What a move operation does when its solver fails.\<close>

lemma move_failed:
  fixes res :: "nat \<times> widowx"
  assumes "fst res = 1" "desired_unchanged st0 st" "scratch_only st (snd res)"
  shows "\<exists>st'. (case res of (r, st) \<Rightarrow>
                  if r \<noteq> 0 then Some (Inr (println ''No solution for IK!'' st)) else cont st)
               = Some (Inr st') \<and> desired_unchanged st0 st'"
proof -
  obtain r s where res: "res = (r, s)" by (cases res)
  have "desired_unchanged st s"
    using assms(3) res by (simp add: scratch_only_desired)
  then have "desired_unchanged st0 s"
    using assms(2) by (rule desired_unchanged_trans[rotated])
  then have "desired_unchanged st0 (println ''No solution for IK!'' s)"
    using println_desired by (rule desired_unchanged_trans)
  then show ?thesis
    using assms(1) res by simp
qed

text \<open>
  C4: when a solver returns 1 the desired angles and the desired positions are what
  they were before the call and nothing has been sent that moves a joint; and when the
  solver fails inside a move operation (\<open>moveArmQ4\<close>, \<open>moveArmGamma\<close>, \<open>moveArmRd\<close>,
  \<open>moveArmRdBase\<close>, each with or without a duration, and \<open>setArmGamma\<close>), the operation
  returns with the desired state of its start and without a motion command.
\<close>

theorem failed_solve_leaves_desired_state:
  "(fst (getIK_Q4 st Px Py Pz) = 1 \<longrightarrow> desired_unchanged st (snd (getIK_Q4 st Px Py Pz))) \<and>
   (fst (getIK_Gamma st Px Py Pz gamma) = 1 \<longrightarrow>
      desired_unchanged st (snd (getIK_Gamma st Px Py Pz gamma))) \<and>
   (fst (getIK_Rd st Px Py Pz Rd) = 1 \<longrightarrow> desired_unchanged st (snd (getIK_Rd st Px Py Pz Rd))) \<and>
   (fst (getIK_RdBase st Px Py Pz Rd) = 1 \<longrightarrow>
      desired_unchanged st (snd (getIK_RdBase st Px Py Pz Rd))) \<and>
   (fst (getIK_Gamma_Controller w st Px Py Pz gamma) = 1 \<longrightarrow>
      desired_unchanged st (snd (getIK_Gamma_Controller w st Px Py Pz gamma))) \<and>
   (fst (getIK_Q4 (solver_input w st) Px Py Pz) = 1 \<longrightarrow>
      (\<exists>st'. moveArmQ4 w st Px Py Pz = Some (Inr st') \<and> desired_unchanged st st')) \<and>
   (fst (getIK_Q4 (solver_input_timed w st) Px Py Pz) = 1 \<longrightarrow>
      (\<exists>st'. moveArmQ4_timed w st Px Py Pz time = Some (Inr st') \<and> desired_unchanged st st')) \<and>
   (fst (getIK_Gamma (solver_input w st) Px Py Pz gamma) = 1 \<longrightarrow>
      (\<exists>st'. moveArmGamma w st Px Py Pz gamma = Some (Inr st') \<and> desired_unchanged st st')) \<and>
   (fst (getIK_Gamma (solver_input_timed w st) Px Py Pz gamma) = 1 \<longrightarrow>
      (\<exists>st'. moveArmGamma_timed w st Px Py Pz gamma time = Some (Inr st') \<and>
             desired_unchanged st st')) \<and>
   (fst (getIK_Rd (solver_input w st) Px Py Pz Rd) = 1 \<longrightarrow>
      (\<exists>st'. moveArmRd w st Px Py Pz Rd = Some (Inr st') \<and> desired_unchanged st st')) \<and>
   (fst (getIK_Rd (solver_input_timed w st) Px Py Pz Rd) = 1 \<longrightarrow>
      (\<exists>st'. moveArmRd_timed w st Px Py Pz Rd time = Some (Inr st') \<and> desired_unchanged st st')) \<and>
   (fst (getIK_RdBase (solver_input w st) Px Py Pz Rd) = 1 \<longrightarrow>
      (\<exists>st'. moveArmRdBase w st Px Py Pz Rd = Some (Inr st') \<and> desired_unchanged st st')) \<and>
   (fst (getIK_RdBase (solver_input_timed w st) Px Py Pz Rd) = 1 \<longrightarrow>
      (\<exists>st'. moveArmRdBase_timed w st Px Py Pz Rd time = Some (Inr st') \<and>
             desired_unchanged st st')) \<and>
   (fst (getIK_Gamma_Controller w (if isRelaxed st then torqueServos st else st) Px Py Pz gamma) = 1
      \<longrightarrow> (\<exists>st'. setArmGamma w st Px Py Pz gamma = Inr st' \<and> desired_unchanged st st'))"
proof -
  note si = solver_input_desired[of st w] and sit = solver_input_timed_desired[of st w]
  have c1: "fst (getIK_Q4 st Px Py Pz) = 1 \<longrightarrow> desired_unchanged st (snd (getIK_Q4 st Px Py Pz))"
    using getIK_Q4_failed scratch_only_desired by blast
  have c2: "fst (getIK_Gamma st Px Py Pz gamma) = 1 \<longrightarrow>
      desired_unchanged st (snd (getIK_Gamma st Px Py Pz gamma))"
    using getIK_Gamma_failed scratch_only_desired by blast
  have c3: "fst (getIK_Rd st Px Py Pz Rd) = 1 \<longrightarrow> desired_unchanged st (snd (getIK_Rd st Px Py Pz Rd))"
    using getIK_Rd_failed scratch_only_desired by blast
  have c4: "fst (getIK_RdBase st Px Py Pz Rd) = 1 \<longrightarrow>
      desired_unchanged st (snd (getIK_RdBase st Px Py Pz Rd))"
    using getIK_RdBase_failed scratch_only_desired by blast
  have c5: "fst (getIK_Gamma_Controller w st Px Py Pz gamma) = 1 \<longrightarrow>
      desired_unchanged st (snd (getIK_Gamma_Controller w st Px Py Pz gamma))"
    using getIK_Gamma_Controller_failed by blast
  have m1: "fst (getIK_Q4 (solver_input w st) Px Py Pz) = 1 \<longrightarrow>
      (\<exists>st'. moveArmQ4 w st Px Py Pz = Some (Inr st') \<and> desired_unchanged st st')"
    unfolding moveArmQ4_def Let_def solver_input_def[symmetric]
    by (intro impI, rule move_failed[OF _ si getIK_Q4_failed]; assumption)
  have m2: "fst (getIK_Q4 (solver_input_timed w st) Px Py Pz) = 1 \<longrightarrow>
      (\<exists>st'. moveArmQ4_timed w st Px Py Pz time = Some (Inr st') \<and> desired_unchanged st st')"
    unfolding moveArmQ4_timed_def Let_def solver_input_timed_def[symmetric]
    by (intro impI, rule move_failed[OF _ sit getIK_Q4_failed]; assumption)
  have m3: "fst (getIK_Gamma (solver_input w st) Px Py Pz gamma) = 1 \<longrightarrow>
      (\<exists>st'. moveArmGamma w st Px Py Pz gamma = Some (Inr st') \<and> desired_unchanged st st')"
    unfolding moveArmGamma_def Let_def solver_input_def[symmetric]
    by (intro impI, rule move_failed[OF _ si getIK_Gamma_failed]; assumption)
  have m4: "fst (getIK_Gamma (solver_input_timed w st) Px Py Pz gamma) = 1 \<longrightarrow>
      (\<exists>st'. moveArmGamma_timed w st Px Py Pz gamma time = Some (Inr st') \<and>
             desired_unchanged st st')"
    unfolding moveArmGamma_timed_def Let_def solver_input_timed_def[symmetric]
    by (intro impI, rule move_failed[OF _ sit getIK_Gamma_failed]; assumption)
  have m5: "fst (getIK_Rd (solver_input w st) Px Py Pz Rd) = 1 \<longrightarrow>
      (\<exists>st'. moveArmRd w st Px Py Pz Rd = Some (Inr st') \<and> desired_unchanged st st')"
    unfolding moveArmRd_def Let_def solver_input_def[symmetric]
    by (intro impI, rule move_failed[OF _ si getIK_Rd_failed]; assumption)
  have m6: "fst (getIK_Rd (solver_input_timed w st) Px Py Pz Rd) = 1 \<longrightarrow>
      (\<exists>st'. moveArmRd_timed w st Px Py Pz Rd time = Some (Inr st') \<and> desired_unchanged st st')"
    unfolding moveArmRd_timed_def Let_def solver_input_timed_def[symmetric]
    by (intro impI, rule move_failed[OF _ sit getIK_Rd_failed]; assumption)
  have m7: "fst (getIK_RdBase (solver_input w st) Px Py Pz Rd) = 1 \<longrightarrow>
      (\<exists>st'. moveArmRdBase w st Px Py Pz Rd = Some (Inr st') \<and> desired_unchanged st st')"
    unfolding moveArmRdBase_def Let_def solver_input_def[symmetric]
    by (intro impI, rule move_failed[OF _ si getIK_RdBase_failed]; assumption)
  have m8: "fst (getIK_RdBase (solver_input_timed w st) Px Py Pz Rd) = 1 \<longrightarrow>
      (\<exists>st'. moveArmRdBase_timed w st Px Py Pz Rd time = Some (Inr st') \<and>
             desired_unchanged st st')"
    unfolding moveArmRdBase_timed_def Let_def solver_input_timed_def[symmetric]
    by (intro impI, rule move_failed[OF _ sit getIK_RdBase_failed]; assumption)
  have m9: "fst (getIK_Gamma_Controller w (if isRelaxed st then torqueServos st else st) Px Py Pz gamma) = 1
      \<longrightarrow> (\<exists>st'. setArmGamma w st Px Py Pz gamma = Inr st' \<and> desired_unchanged st st')"
  proof
    let ?e = "if isRelaxed st then torqueServos st else st"
    assume f: "fst (getIK_Gamma_Controller w ?e Px Py Pz gamma) = 1"
    obtain r s where res: "getIK_Gamma_Controller w ?e Px Py Pz gamma = (r, s)"
      by (cases "getIK_Gamma_Controller w ?e Px Py Pz gamma")
    have "desired_unchanged ?e s"
      using getIK_Gamma_Controller_failed[OF f] res by simp
    then have "desired_unchanged st s"
      by (rule desired_unchanged_trans[OF engage_desired])
    then show "\<exists>st'. setArmGamma w st Px Py Pz gamma = Inr st' \<and> desired_unchanged st st'"
      using f res by (simp add: setArmGamma_def Let_def)
  qed
  show ?thesis
    using c1 c2 c3 c4 c5 m1 m2 m3 m4 m5 m6 m7 m8 m9 by (intro conjI)
qed

subsection \<open>Running the Q4 solver on concrete targets\<close>

lemma D_val: "D = sqrt 221"
  by (simp add: D_def L1_def L2_def)

lemma alpha_val: "alpha = arctan (14 / 5)"
  by (simp add: alpha_def atan2_def L1_def L2_def)

lemma ca_val: "ca = 5 / D"
proof -
  have "sqrt (1 + (14 / 5)\<^sup>2) = sqrt (221 / 5 ^ 2)"
    by (simp add: power2_eq_square)
  also have "\<dots> = sqrt 221 / 5"
    by (simp add: real_sqrt_divide)
  finally have s: "sqrt (1 + (14 / 5)\<^sup>2) = sqrt 221 / 5" .
  show ?thesis
    unfolding ca_def alpha_val cos_arctan s D_val by simp
qed

lemma sa_val: "sa = 14 / D"
proof -
  have "sqrt (1 + (14 / 5)\<^sup>2) = sqrt (221 / 5 ^ 2)"
    by (simp add: power2_eq_square)
  also have "\<dots> = sqrt 221 / 5"
    by (simp add: real_sqrt_divide)
  finally have s: "sqrt (1 + (14 / 5)\<^sup>2) = sqrt 221 / 5" .
  show ?thesis
    unfolding sa_def alpha_val sin_arctan s D_val by simp
qed

lemma D_ca: "D * ca = 5" and D_sa: "D * sa = 14"
  using D_pos by (simp_all add: ca_val sa_val)

lemma D_gt_10: "10 < D"
proof -
  have "sqrt (10 ^ 2) < sqrt 221" by (rule real_sqrt_less_mono) simp
  then show ?thesis by (simp add: D_val)
qed

text \<open>Normalising an angle of the interval from \<open>- pi\<close> to \<open>pi\<close> returns it.\<close>

lemma atan2_sin_cos:
  assumes "- pi < x" "x \<le> pi"
  shows "atan2 (sin x) (cos x) = x"
proof -
  consider "\<bar>x\<bar> < pi / 2" | "x = pi / 2" | "x = - (pi / 2)" | "pi / 2 < x" | "x < - (pi / 2)"
    by linarith
  then show ?thesis
  proof cases
    case 1
    then have c: "0 < cos x" by (intro cos_gt_zero_pi) (simp_all add: abs_less_iff)
    have "arctan (sin x / cos x) = x"
      using 1 arctan_tan[of x] by (simp add: tan_def abs_less_iff)
    then show ?thesis using c by (simp add: atan2_def)
  next
    case 2
    show ?thesis unfolding 2 by (simp add: atan2_def)
  next
    case 3
    show ?thesis unfolding 3 by (simp add: atan2_def)
  next
    case 4
    let ?y = "x - pi"
    have y: "- (pi / 2) < ?y" "?y \<le> 0" using 4 assms by simp_all
    have cy: "0 < cos ?y" using y by (intro cos_gt_zero_pi) simp_all
    have "0 \<le> sin (- ?y)" using y by (intro sin_ge_zero) simp_all
    then have sy: "sin ?y \<le> 0" by simp
    have cx: "cos x = - cos ?y" and sx: "sin x = - sin ?y"
      by (simp_all add: cos_diff sin_diff)
    have t: "sin x / cos x = sin ?y / cos ?y"
      by (simp only: cx sx minus_divide_divide)
    have "arctan (sin ?y / cos ?y) = ?y"
      using y arctan_tan[of ?y] by (simp add: tan_def)
    then have a: "arctan (sin x / cos x) = x - pi"
      by (simp only: t)
    have "cos x < 0" "0 \<le> sin x"
      using cx sx cy sy by linarith+
    then show ?thesis
      using a by (simp add: atan2_def)
  next
    case 5
    let ?y = "x + pi"
    have y: "0 < ?y" "?y < pi / 2" using 5 assms by simp_all
    have cy: "0 < cos ?y" using y by (intro cos_gt_zero_pi) simp_all
    have sy: "0 < sin ?y" using y by (intro sin_gt_zero) simp_all
    have cx: "cos x = - cos ?y" and sx: "sin x = - sin ?y"
      by (simp_all add: cos_add sin_add)
    have t: "sin x / cos x = sin ?y / cos ?y"
      by (simp only: cx sx minus_divide_divide)
    have "arctan (sin ?y / cos ?y) = ?y"
      using y arctan_tan[of ?y] by (simp add: tan_def)
    then have a: "arctan (sin x / cos x) = x + pi"
      by (simp only: t)
    have "cos x < 0" "sin x < 0"
      using cx sx cy sy by linarith+
    then show ?thesis
      using a by (simp add: atan2_def)
  qed
qed

lemma getIK_Q4_first_branch:
  assumes "q4 = current_angle st ! 3" "s4 = sin q4" "c4 = cos q4"
      and "X = sqrt (Px ^ 2 + Py ^ 2)" "Z = Pz - L0"
      and "a = L3 * ca + L4 * ca * c4 + L4 * sa * s4"
      and "b = L3 * sa - L4 * ca * s4 + L4 * sa * c4"
      and "c = (X ^ 2 + Z ^ 2 - D ^ 2 - L3 ^ 2 - L4 ^ 2 - 2 * L3 * L4 * c4) / (2 * D)"
      and "cond = a ^ 2 + b ^ 2 - c ^ 2" "0 \<le> cond"
      and "q3 = atan2 (sin (2 * atan2 (b - sqrt cond) (a + c))) (cos (2 * atan2 (b - sqrt cond) (a + c)))"
      and "q3Lim ! 0 \<le> q3" "q3 \<le> q3Lim ! 1"
  shows "getIK_Q4 st Px Py Pz =
           (case getIK_Q4_loop X Z s4 c4 1
                   (st\<lparr>glob_q1 := atan2 Py Px, glob_q4 := q4, glob_a := a, glob_b := b,
                      glob_c := c, glob_cond := cond, glob_q3 := q3\<rparr>) of
              (r, st) \<Rightarrow> if r \<noteq> 0 then (1, st) else (0, save_desired_angles st))"
  using assms by (simp add: getIK_Q4_def Let_def not_less)

lemma getIK_Q4_loop_accepts:
  assumes "c3 = cos (glob_q3 st)" "s3 = sin (glob_q3 st)"
      and "a = D * ca + L3 * c3 + L4 * c3 * c4 - L4 * s3 * s4"
      and "b = D * sa + L3 * s3 + L4 * s3 * c4 + L4 * c3 * s4"
      and "q2 = atan2 (a * Z - b * X) (a * X + b * Z)"
      and "q2Lim ! 0 \<le> q2" "q2 \<le> q2Lim ! 1"
  shows "getIK_Q4_loop X Z s4 c4 t st = (0, st\<lparr>glob_a := a, glob_b := b, glob_q2 := q2\<rparr>)"
  using assms by (subst getIK_Q4_loop.simps) (simp add: Let_def not_less)

lemma getIK_Q4_loop_retries:
  assumes "c3 = cos (glob_q3 st)" "s3 = sin (glob_q3 st)"
      and "a = D * ca + L3 * c3 + L4 * c3 * c4 - L4 * s3 * s4"
      and "b = D * sa + L3 * s3 + L4 * s3 * c4 + L4 * c3 * s4"
      and "q2 = atan2 (a * Z - b * X) (a * X + b * Z)"
      and "q2 < q2Lim ! 0 \<or> q2 > q2Lim ! 1"
      and "q3 = atan2 (sin (2 * atan2 (b + sqrt (glob_cond st)) (a + glob_c st)))
                      (cos (2 * atan2 (b + sqrt (glob_cond st)) (a + glob_c st)))"
      and "q3Lim ! 0 \<le> q3" "q3 \<le> q3Lim ! 1"
  shows "getIK_Q4_loop X Z s4 c4 1 st =
           getIK_Q4_loop X Z s4 c4 0 (st\<lparr>glob_a := a, glob_b := b, glob_q2 := q2, glob_q3 := q3\<rparr>)"
  using assms by (subst getIK_Q4_loop.simps) (auto simp add: Let_def not_less)

lemma q3Lim_0: "q3Lim ! 0 = - (181 * pi / 360)" and q3Lim_1: "q3Lim ! 1 = 5 * pi / 6"
  and q2Lim_0: "q2Lim ! 0 = - (181 * pi / 360)" and q2Lim_1: "q2Lim ! 1 = 181 * pi / 360"
  by (simp_all add: q3Lim_def q2Lim_def limPi_2_def lim5Pi_6_def)

text \<open>
  What every successful solve of \<open>getIK_Q4\<close> and \<open>getIK_Gamma\<close> stores for the wrist
  roll and the gripper.
\<close>

lemma save_desired_angles_tail:
  assumes "length (desired_angle st) = 6"
  shows "desired_angle (save_desired_angles st) ! 4 = current_angle st ! 5"
    and "desired_angle (save_desired_angles st) ! 5 = past_current_angle st"
  using assms by (simp_all add: save_desired_angles_def Let_def)

lemma solver_success_stores:
  fixes res :: "nat \<times> widowx"
  assumes "solver_result st save_desired_angles res" "fst res = 0" "length (desired_angle st) = 6"
  shows "desired_angle (snd res) ! 4 = current_angle st ! 5 \<and>
         desired_angle (snd res) ! 5 = past_current_angle st"
proof -
  from assms(1,2) obtain st1 where s: "scratch_only st st1" and r: "res = (0, save_desired_angles st1)"
    by (auto simp: solver_result_def)
  have "length (desired_angle st1) = 6"
    using scratch_only_fields(1)[OF s] assms(3) by simp
  then show ?thesis
    using save_desired_angles_tail[of st1] scratch_only_fields[OF s] by (simp add: r)
qed

lemma getIK_Q4_success_stores:
  assumes "fst (getIK_Q4 st Px Py Pz) = 0" "length (desired_angle st) = 6"
  shows "desired_angle (snd (getIK_Q4 st Px Py Pz)) ! 4 = current_angle st ! 5 \<and>
         desired_angle (snd (getIK_Q4 st Px Py Pz)) ! 5 = past_current_angle st"
  using getIK_Q4_result assms by (rule solver_success_stores)

lemma getIK_Gamma_success_stores:
  assumes "fst (getIK_Gamma st Px Py Pz gamma) = 0" "length (desired_angle st) = 6"
  shows "desired_angle (snd (getIK_Gamma st Px Py Pz gamma)) ! 4 = current_angle st ! 5 \<and>
         desired_angle (snd (getIK_Gamma st Px Py Pz gamma)) ! 5 = past_current_angle st"
  using getIK_Gamma_result assms by (rule solver_success_stores)

lemma getIK_Q4_centre:
  "getIK_Q4 centred_arm 33 0 23 =
     (0, save_desired_angles
           (centred_arm\<lparr>glob_q1 := 0, glob_q4 := 0, glob_c := 140 / D,
              glob_cond := (392 / D) ^ 2, glob_q3 := 0, glob_a := 33, glob_b := 14,
              glob_q2 := 0\<rparr>))"
proof -
  let ?st1 = "centred_arm\<lparr>glob_q1 := atan2 0 33, glob_q4 := 0, glob_a := 140 / D, glob_b := 392 / D,
                      glob_c := 140 / D, glob_cond := (392 / D) ^ 2, glob_q3 := 0\<rparr>"
  have sq: "sqrt ((392 / D) ^ 2) = 392 / D"
    using D_pos by simp
  have pos: "0 < 140 / D + 140 / D" using D_pos by simp
  have first: "getIK_Q4 centred_arm 33 0 23 =
           (case getIK_Q4_loop 33 14 0 1 1 ?st1 of
              (r, st) \<Rightarrow> if r \<noteq> 0 then (1, st) else (0, save_desired_angles st))"
  proof (rule getIK_Q4_first_branch)
    show "0 = current_angle centred_arm ! 3" by (simp add: centred_arm_def)
    show "(0::real) = sin 0" "(1::real) = cos 0" by simp_all
    show "33 = sqrt (33 ^ 2 + 0 ^ 2)" by simp
    show "14 = 23 - L0" by (simp add: L0_def)
    show "140 / D = L3 * ca + L4 * ca * 1 + L4 * sa * 0" by (simp add: L3_def L4_def ca_val)
    show "392 / D = L3 * sa - L4 * ca * 0 + L4 * sa * 1" by (simp add: L3_def L4_def sa_val)
    show "140 / D = (33 ^ 2 + 14 ^ 2 - D ^ 2 - L3 ^ 2 - L4 ^ 2 - 2 * L3 * L4 * 1) / (2 * D)"
      by (simp add: D_sq L3_def L4_def)
    show "(392 / D) ^ 2 = (140 / D) ^ 2 + (392 / D) ^ 2 - (140 / D) ^ 2" by simp
    show "0 \<le> (392 / D) ^ 2" by simp
    show "0 = atan2 (sin (2 * atan2 (392 / D - sqrt ((392 / D) ^ 2)) (140 / D + 140 / D)))
                    (cos (2 * atan2 (392 / D - sqrt ((392 / D) ^ 2)) (140 / D + 140 / D)))"
      unfolding sq using pos by (simp add: atan2_def)
    show "q3Lim ! 0 \<le> 0" "0 \<le> q3Lim ! 1" by (simp_all add: q3Lim_def limPi_2_def lim5Pi_6_def)
  qed
  have loop: "getIK_Q4_loop 33 14 0 1 1 ?st1 = (0, ?st1\<lparr>glob_a := 33, glob_b := 14, glob_q2 := 0\<rparr>)"
  proof (rule getIK_Q4_loop_accepts)
    show "1 = cos (glob_q3 ?st1)" "0 = sin (glob_q3 ?st1)" by simp_all
    show "33 = D * ca + L3 * 1 + L4 * 1 * 1 - L4 * 0 * 0" by (simp add: D_ca L3_def L4_def)
    show "14 = D * sa + L3 * 0 + L4 * 0 * 1 + L4 * 1 * 0" by (simp add: D_sa)
    show "0 = atan2 (33 * 14 - 14 * 33) (33 * 33 + 14 * 14)" by (simp add: atan2_def)
    show "q2Lim ! 0 \<le> 0" "0 \<le> q2Lim ! 1" by (simp_all add: q2Lim_def limPi_2_def)
  qed
  show ?thesis
    unfolding first loop by (simp add: atan2_def)
qed

text \<open>
  C5: on the centred arm (wrist roll 0.5 rad, gripper 1 rad) \<open>getIK_Q4\<close> solves the
  target (33, 0, 23) and then stores the gripper angle \<open>current_angle[5]\<close> as the
  desired wrist roll \<open>desired_angle[4]\<close>, not the wrist roll \<open>current_angle[4]\<close>; the
  desired gripper angle is read from behind the array.
\<close>

theorem getIK_Q4_copies_gripper_angle:
  "fst (getIK_Q4 centred_arm 33 0 23) = 0 \<and>
   desired_angle (snd (getIK_Q4 centred_arm 33 0 23)) ! 4 = 1 \<and>
   current_angle centred_arm ! 4 = 1 / 2 \<and>
   current_angle centred_arm ! 5 = 1 \<and>
   desired_angle (snd (getIK_Q4 centred_arm 33 0 23)) ! 5 = past_current_angle centred_arm"
  unfolding getIK_Q4_centre
  by (simp add: save_desired_angles_def Let_def centred_arm_def WidowX_def SERVOCOUNT_def
        numeral_eq_Suc)

lemma D_less_28: "D < 28"
  using D_less_15 by simp

lemma retry_ratio_bounds: "0 < retry_ratio" "retry_ratio < 1"
proof -
  have y: "- 14 + 140 / D < 0"
    using D_gt_10 D_pos by (simp add: field_simps)
  have x: "5 - 392 / D < 0"
    using D_less_28 D_pos by (simp add: field_simps)
  show "0 < retry_ratio"
    unfolding retry_ratio_def using y x by (rule divide_neg_neg)
  have "5 - 392 / D < - 14 + 140 / D"
    using D_less_28 D_pos by (simp add: field_simps)
  then show "retry_ratio < 1"
    unfolding retry_ratio_def using x by (simp add: neg_divide_less_eq)
qed

lemma retry_angle_bounds: "0 < 2 * arctan retry_ratio" "2 * arctan retry_ratio < pi / 2"
proof -
  show "0 < 2 * arctan retry_ratio"
    using retry_ratio_bounds(1) by simp
  have "arctan retry_ratio < arctan 1"
    using retry_ratio_bounds(2) by (simp only: arctan_less_iff)
  then show "2 * arctan retry_ratio < pi / 2"
    by (simp add: arctan_one)
qed

lemma arctan_sqrt3: "arctan (sqrt 3) = pi / 3"
proof -
  have "- (pi / 2) < pi / 3" "pi / 3 < pi / 2"
    using pi_gt_zero by linarith+
  then have "arctan (tan (pi / 3)) = pi / 3"
    by (rule arctan_tan)
  then show ?thesis by (simp add: tan_60)
qed

lemma arctan_19_9: "pi / 3 < arctan (19 / 9)"
proof -
  have "sqrt 3 < sqrt ((19 / 9) ^ 2)"
    by (rule real_sqrt_less_mono) (simp add: power2_eq_square)
  then have "sqrt 3 < 19 / 9" by simp
  then have "arctan (sqrt 3) < arctan (19 / 9)"
    by (simp only: arctan_less_iff)
  then show ?thesis by (simp add: arctan_sqrt3)
qed

lemma sqrt_140_D: "sqrt ((140 / D) ^ 2) = 140 / D"
  using D_pos by simp

text \<open>The other root of the elbow equation at the target (5, 0, 23).\<close>

lemma fallback_elbow_spec_value:
  "fallback_elbow_spec 5 0 23 0 = - (2 * arctan (19 / 9))"
proof -
  have a: "L3 * ca + L4 * ca * cos 0 + L4 * sa * sin 0 = 140 / D"
    by (simp add: L3_def L4_def ca_val)
  have b: "L3 * sa - L4 * ca * sin 0 + L4 * sa * cos 0 = 392 / D"
    by (simp add: L3_def L4_def sa_val)
  have c: "((sqrt (5 ^ 2 + 0 ^ 2)) ^ 2 + (23 - L0) ^ 2 - D ^ 2 - L3 ^ 2 - L4 ^ 2 - 2 * L3 * L4 * cos 0)
             / (2 * D) = - (392 / D)"
    by (simp add: D_sq L3_def L4_def L0_def)
  have cond: "(140 / D) ^ 2 + (392 / D) ^ 2 - (- (392 / D)) ^ 2 = (140 / D) ^ 2"
    by simp
  have y: "392 / D + 140 / D = 532 / D" by simp
  have x: "140 / D + - (392 / D) = - (252 / D)" by simp
  have xneg: "- (252 / D) < 0" "0 \<le> 532 / D" using D_pos by simp_all
  have r: "532 / D / - (252 / D) = - (19 / 9)" using D_pos by simp
  have at: "atan2 (532 / D) (- (252 / D)) = pi - arctan (19 / 9)"
    using xneg unfolding atan2_def r by (simp add: arctan_minus)
  have b1: "- pi < - (2 * arctan (19 / 9))"
    using arctan_ubound[of "19 / 9"] by simp
  have b2: "- (2 * arctan (19 / 9)) \<le> pi"
    using arctan_lbound[of "19 / 9"] by simp
  have s: "sin (2 * (pi - arctan (19 / 9))) = sin (- (2 * arctan (19 / 9)))"
    by (simp add: algebra_simps sin_diff)
  have co: "cos (2 * (pi - arctan (19 / 9))) = cos (- (2 * arctan (19 / 9)))"
    by (simp add: algebra_simps cos_diff)
  show ?thesis
    unfolding fallback_elbow_spec_def Let_def a b c cond sqrt_140_D y x at s co
    by (rule atan2_sin_cos[OF b1 b2])
qed

lemma first_candidate_5_23:
  "atan2 (sin (2 * atan2 (392 / D - sqrt ((140 / D) ^ 2)) (140 / D + - (392 / D))))
         (cos (2 * atan2 (392 / D - sqrt ((140 / D) ^ 2)) (140 / D + - (392 / D)))) = - (pi / 2)"
proof -
  have y: "392 / D - 140 / D = 252 / D" by simp
  have x: "140 / D + - (392 / D) = - (252 / D)" by simp
  have sg: "- (252 / D) < 0" "0 \<le> 252 / D" using D_pos by simp_all
  have r: "252 / D / - (252 / D) = - 1" using D_pos by simp
  have at: "atan2 (252 / D) (- (252 / D)) = 3 * pi / 4"
    using sg unfolding atan2_def r by (simp add: arctan_minus arctan_one)
  have d: "2 * (3 * pi / 4) = 3 / 2 * pi" by simp
  show ?thesis
    unfolding sqrt_140_D y x at d sin_3over2_pi cos_3over2_pi
    by (simp add: atan2_def)
qed

lemma shoulder_5_23: "181 * pi / 360 < atan2 (5 * 14 - - 14 * 5) (5 * 5 + - 14 * 14)"
proof -
  have "arctan (140 / 171) < arctan 1"
    by (simp add: arctan_less_iff)
  then have lt: "arctan (140 / 171) < pi / 4" by (simp add: arctan_one)
  have eq: "atan2 (5 * 14 - - 14 * 5) (5 * 5 + - 14 * 14) = pi - arctan (140 / 171)"
    by (simp add: atan2_def arctan_minus)
  show ?thesis
    unfolding eq using lt pi_gt_zero by linarith
qed

lemma retry_candidate_5_23:
  "atan2 (sin (2 * atan2 (- 14 + sqrt ((140 / D) ^ 2)) (5 + - (392 / D))))
         (cos (2 * atan2 (- 14 + sqrt ((140 / D) ^ 2)) (5 + - (392 / D)))) = 2 * arctan retry_ratio"
proof -
  have y: "- 14 + 140 / D < 0"
    using D_gt_10 D_pos by (simp add: field_simps)
  have x: "5 - 392 / D < 0"
    using D_less_28 D_pos by (simp add: field_simps)
  have x': "5 + - (392 / D) = 5 - 392 / D" by simp
  have at: "atan2 (- 14 + 140 / D) (5 - 392 / D) = arctan retry_ratio - pi"
    using x y unfolding atan2_def retry_ratio_def by simp
  have s: "sin (2 * (arctan retry_ratio - pi)) = sin (2 * arctan retry_ratio)"
    by (simp add: algebra_simps sin_diff)
  have c: "cos (2 * (arctan retry_ratio - pi)) = cos (2 * arctan retry_ratio)"
    by (simp add: algebra_simps cos_diff)
  have b1: "- pi < 2 * arctan retry_ratio"
    using retry_angle_bounds(1) pi_gt_zero by linarith
  have b2: "2 * arctan retry_ratio \<le> pi"
    using retry_angle_bounds(2) pi_gt_zero by linarith
  show ?thesis
    unfolding sqrt_140_D x' at s c by (rule atan2_sin_cos[OF b1 b2])
qed

lemma wrong_elbow_bounds: "0 < wrong_elbow" "wrong_elbow < pi / 2"
  using retry_angle_bounds by (simp_all add: wrong_elbow_def)

lemma wrong_shoulder_bounds: "- (pi / 2) < wrong_shoulder" "wrong_shoulder < pi / 2"
proof -
  have c: "0 < cos wrong_elbow"
    using wrong_elbow_bounds by (intro cos_gt_zero_pi) simp_all
  have s: "0 < sin wrong_elbow"
    using wrong_elbow_bounds by (intro sin_gt_zero) simp_all
  have "0 < (5 + 28 * cos wrong_elbow) * 5 + (14 + 28 * sin wrong_elbow) * 14"
    using c s by simp
  then have "wrong_shoulder =
      arctan (((5 + 28 * cos wrong_elbow) * 14 - (14 + 28 * sin wrong_elbow) * 5) /
              ((5 + 28 * cos wrong_elbow) * 5 + (14 + 28 * sin wrong_elbow) * 14))"
    unfolding wrong_shoulder_def atan2_def by (simp only: if_True)
  then obtain y where y: "wrong_shoulder = arctan y" by blast
  show "- (pi / 2) < wrong_shoulder" "wrong_shoulder < pi / 2"
    unfolding y by (rule arctan_lbound, rule arctan_ubound)
qed

lemma getIK_Q4_5_23:
  "getIK_Q4 centred_arm 5 0 23 =
     (0, save_desired_angles
           (centred_arm\<lparr>glob_q1 := 0, glob_q4 := 0, glob_c := - (392 / D),
              glob_cond := (140 / D) ^ 2, glob_q3 := wrong_elbow,
              glob_a := 5 + 28 * cos wrong_elbow, glob_b := 14 + 28 * sin wrong_elbow,
              glob_q2 := wrong_shoulder\<rparr>))"
proof -
  let ?st1 = "centred_arm\<lparr>glob_q1 := atan2 0 5, glob_q4 := 0, glob_a := 140 / D, glob_b := 392 / D,
                      glob_c := - (392 / D), glob_cond := (140 / D) ^ 2, glob_q3 := - (pi / 2)\<rparr>"
  let ?q2 = "atan2 (5 * 14 - - 14 * 5) (5 * 5 + - 14 * 14)"
  let ?st2 = "?st1\<lparr>glob_a := 5, glob_b := - 14, glob_q2 := ?q2, glob_q3 := wrong_elbow\<rparr>"
  have first: "getIK_Q4 centred_arm 5 0 23 =
           (case getIK_Q4_loop 5 14 0 1 1 ?st1 of
              (r, st) \<Rightarrow> if r \<noteq> 0 then (1, st) else (0, save_desired_angles st))"
  proof (rule getIK_Q4_first_branch)
    show "0 = current_angle centred_arm ! 3" by (simp add: centred_arm_def)
    show "(0::real) = sin 0" "(1::real) = cos 0" by simp_all
    show "5 = sqrt (5 ^ 2 + 0 ^ 2)" by simp
    show "14 = 23 - L0" by (simp add: L0_def)
    show "140 / D = L3 * ca + L4 * ca * 1 + L4 * sa * 0" by (simp add: L3_def L4_def ca_val)
    show "392 / D = L3 * sa - L4 * ca * 0 + L4 * sa * 1" by (simp add: L3_def L4_def sa_val)
    show "- (392 / D) = (5 ^ 2 + 14 ^ 2 - D ^ 2 - L3 ^ 2 - L4 ^ 2 - 2 * L3 * L4 * 1) / (2 * D)"
      by (simp add: D_sq L3_def L4_def)
    show "(140 / D) ^ 2 = (140 / D) ^ 2 + (392 / D) ^ 2 - (- (392 / D)) ^ 2" by simp
    show "0 \<le> (140 / D) ^ 2" by simp
    show "- (pi / 2) = atan2 (sin (2 * atan2 (392 / D - sqrt ((140 / D) ^ 2)) (140 / D + - (392 / D))))
                    (cos (2 * atan2 (392 / D - sqrt ((140 / D) ^ 2)) (140 / D + - (392 / D))))"
      by (rule first_candidate_5_23[symmetric])
    show "q3Lim ! 0 \<le> - (pi / 2)" "- (pi / 2) \<le> q3Lim ! 1"
      by (simp_all add: q3Lim_def limPi_2_def lim5Pi_6_def)
  qed
  have pass1: "getIK_Q4_loop 5 14 0 1 1 ?st1 = getIK_Q4_loop 5 14 0 1 0 ?st2"
  proof (rule getIK_Q4_loop_retries)
    show "0 = cos (glob_q3 ?st1)" "- 1 = sin (glob_q3 ?st1)" by simp_all
    show "5 = D * ca + L3 * 0 + L4 * 0 * 1 - L4 * - 1 * 0" by (simp add: D_ca)
    show "- 14 = D * sa + L3 * - 1 + L4 * - 1 * 1 + L4 * 0 * 0" by (simp add: D_sa L3_def L4_def)
    show "?q2 = atan2 (5 * 14 - - 14 * 5) (5 * 5 + - 14 * 14)" by (rule refl)
    show "?q2 < q2Lim ! 0 \<or> ?q2 > q2Lim ! 1"
      using shoulder_5_23 by (simp add: q2Lim_def limPi_2_def)
    show "wrong_elbow = atan2 (sin (2 * atan2 (- 14 + sqrt (glob_cond ?st1)) (5 + glob_c ?st1)))
                      (cos (2 * atan2 (- 14 + sqrt (glob_cond ?st1)) (5 + glob_c ?st1)))"
      using retry_candidate_5_23 by (simp add: wrong_elbow_def)
    show "q3Lim ! 0 \<le> wrong_elbow" "wrong_elbow \<le> q3Lim ! 1"
      using wrong_elbow_bounds pi_gt_zero by (simp_all add: q3Lim_def limPi_2_def lim5Pi_6_def)
  qed
  have pass2: "getIK_Q4_loop 5 14 0 1 0 ?st2 =
      (0, ?st2\<lparr>glob_a := 5 + 28 * cos wrong_elbow, glob_b := 14 + 28 * sin wrong_elbow,
               glob_q2 := wrong_shoulder\<rparr>)"
  proof (rule getIK_Q4_loop_accepts)
    show "cos wrong_elbow = cos (glob_q3 ?st2)" "sin wrong_elbow = sin (glob_q3 ?st2)" by simp_all
    show "5 + 28 * cos wrong_elbow =
            D * ca + L3 * cos wrong_elbow + L4 * cos wrong_elbow * 1 - L4 * sin wrong_elbow * 0"
      by (simp add: D_ca L3_def L4_def)
    show "14 + 28 * sin wrong_elbow =
            D * sa + L3 * sin wrong_elbow + L4 * sin wrong_elbow * 1 + L4 * cos wrong_elbow * 0"
      by (simp add: D_sa L3_def L4_def)
    show "wrong_shoulder = atan2 ((5 + 28 * cos wrong_elbow) * 14 - (14 + 28 * sin wrong_elbow) * 5)
           ((5 + 28 * cos wrong_elbow) * 5 + (14 + 28 * sin wrong_elbow) * 14)"
      by (rule wrong_shoulder_def)
    show "q2Lim ! 0 \<le> wrong_shoulder" "wrong_shoulder \<le> q2Lim ! 1"
      using wrong_shoulder_bounds pi_gt_zero by (simp_all add: q2Lim_def limPi_2_def)
  qed
  show ?thesis
    unfolding first pass1 pass2 by (simp add: atan2_def)
qed

text \<open>
  C6: on the centred arm and for the target (5, 0, 23) the first elbow candidate of
  \<open>getIK_Q4\<close> is \<open>- pi / 2\<close>, inside the elbow limits, and its shoulder angle violates
  the shoulder limit. The retry then computes \<open>2 * atan2(b + sqrt(cond), a + c)\<close> with
  the \<open>a\<close> and \<open>b\<close> that the loop has just overwritten: the solver returns 0 with the
  positive elbow angle \<open>wrong_elbow\<close>, while the other root of the equation, with the
  coefficients of the first candidate, is \<open>- 2 * arctan (19 / 9)\<close>, which lies below the
  elbow limit.
\<close>

theorem getIK_Q4_fallback_not_the_other_root:
  "fst (getIK_Q4 centred_arm 5 0 23) = 0 \<and>
   desired_angle (snd (getIK_Q4 centred_arm 5 0 23)) ! 2 = wrong_elbow \<and>
   0 < wrong_elbow \<and>
   fallback_elbow_spec 5 0 23 (current_angle centred_arm ! 3) = - (2 * arctan (19 / 9)) \<and>
   fallback_elbow_spec 5 0 23 (current_angle centred_arm ! 3) < q3Lim ! 0 \<and>
   desired_angle (snd (getIK_Q4 centred_arm 5 0 23)) ! 2 \<noteq>
     fallback_elbow_spec 5 0 23 (current_angle centred_arm ! 3)"
proof -
  have q4: "current_angle centred_arm ! 3 = 0" by (simp add: centred_arm_def)
  have d: "desired_angle (snd (getIK_Q4 centred_arm 5 0 23)) ! 2 = wrong_elbow"
    unfolding getIK_Q4_5_23
    by (simp add: save_desired_angles_def Let_def centred_arm_def WidowX_def SERVOCOUNT_def
          numeral_eq_Suc)
  have neg: "- (2 * arctan (19 / 9)) < - (181 * pi / 360)"
    using arctan_19_9 pi_gt_zero by linarith
  have lim: "fallback_elbow_spec 5 0 23 0 < q3Lim ! 0"
    unfolding fallback_elbow_spec_value using neg by (simp add: q3Lim_def limPi_2_def)
  have "fallback_elbow_spec 5 0 23 0 < 0"
    unfolding fallback_elbow_spec_value using arctan_19_9 pi_gt_zero by linarith
  then have ne: "wrong_elbow \<noteq> fallback_elbow_spec 5 0 23 0"
    using wrong_elbow_bounds(1) by linarith
  show ?thesis
    unfolding q4 d using wrong_elbow_bounds(1) fallback_elbow_spec_value lim ne
    by (simp add: getIK_Q4_5_23)
qed

theorem failed_solve_leaves_desired_state_witness:
  "fst (getIK_Q4 (relaxServos WidowX) 1000 0 0) = 1 \<and>
   desired_unchanged (relaxServos WidowX) (snd (getIK_Q4 (relaxServos WidowX) 1000 0 0)) \<and>
   fst (getIK_Gamma (relaxServos WidowX) 1000 0 0 0) = 1 \<and>
   desired_unchanged (relaxServos WidowX) (snd (getIK_Gamma (relaxServos WidowX) 1000 0 0 0)) \<and>
   fst (getIK_Rd (relaxServos WidowX) 1000 0 0 [[1, 0, 0], [0, 1, 0], [0, 0, 1]]) = 1 \<and>
   desired_unchanged (relaxServos WidowX)
     (snd (getIK_Rd (relaxServos WidowX) 1000 0 0 [[1, 0, 0], [0, 1, 0], [0, 0, 1]])) \<and>
   fst (getIK_RdBase (relaxServos WidowX) 1000 0 0 [[1, 0, 0], [0, 1, 0], [0, 0, 1]]) = 1 \<and>
   desired_unchanged (relaxServos WidowX)
     (snd (getIK_RdBase (relaxServos WidowX) 1000 0 0 [[1, 0, 0], [0, 1, 0], [0, 0, 1]])) \<and>
   fst (getIK_Gamma_Controller (flaky_bus 3 2048) (relaxServos WidowX) 1000 0 0 0) = 1 \<and>
   desired_unchanged (relaxServos WidowX)
     (snd (getIK_Gamma_Controller (flaky_bus 3 2048) (relaxServos WidowX) 1000 0 0 0)) \<and>
   (\<exists>st'. moveArmQ4 (flaky_bus 3 2048) (relaxServos WidowX) 1000 0 0 = Some (Inr st') \<and>
          desired_unchanged (relaxServos WidowX) st') \<and>
   (\<exists>st'. moveArmQ4_timed (flaky_bus 3 2048) (relaxServos WidowX) 1000 0 0 1500 = Some (Inr st') \<and>
          desired_unchanged (relaxServos WidowX) st') \<and>
   (\<exists>st'. moveArmGamma (flaky_bus 3 2048) (relaxServos WidowX) 1000 0 0 0 = Some (Inr st') \<and>
          desired_unchanged (relaxServos WidowX) st') \<and>
   (\<exists>st'. moveArmGamma_timed (flaky_bus 3 2048) (relaxServos WidowX) 1000 0 0 0 1500 = Some (Inr st') \<and>
          desired_unchanged (relaxServos WidowX) st') \<and>
   (\<exists>st'. moveArmRd (flaky_bus 3 2048) (relaxServos WidowX) 1000 0 0 [[1, 0, 0], [0, 1, 0], [0, 0, 1]]
            = Some (Inr st') \<and> desired_unchanged (relaxServos WidowX) st') \<and>
   (\<exists>st'. moveArmRd_timed (flaky_bus 3 2048) (relaxServos WidowX) 1000 0 0
             [[1, 0, 0], [0, 1, 0], [0, 0, 1]] 1500
            = Some (Inr st') \<and> desired_unchanged (relaxServos WidowX) st') \<and>
   (\<exists>st'. moveArmRdBase (flaky_bus 3 2048) (relaxServos WidowX) 1000 0 0
             [[1, 0, 0], [0, 1, 0], [0, 0, 1]]
            = Some (Inr st') \<and> desired_unchanged (relaxServos WidowX) st') \<and>
   (\<exists>st'. moveArmRdBase_timed (flaky_bus 3 2048) (relaxServos WidowX) 1000 0 0
             [[1, 0, 0], [0, 1, 0], [0, 0, 1]] 1500
            = Some (Inr st') \<and> desired_unchanged (relaxServos WidowX) st') \<and>
   (\<exists>st'. setArmGamma (flaky_bus 3 2048) (relaxServos WidowX) 1000 0 0 0 = Inr st' \<and>
          desired_unchanged (relaxServos WidowX) st')"
  using failed_solve_leaves_desired_state
          [of "relaxServos WidowX" 1000 0 0 0 "[[1, 0, 0], [0, 1, 0], [0, 0, 1]]" "flaky_bus 3 2048" 1500]
        getIK_Q4_far[OF far_1000] getIK_Gamma_far[OF far_1000] getIK_Rd_far[OF far_1000]
        getIK_RdBase_far[OF far_1000] getIK_Gamma_Controller_far[OF far_1000]
  by simp

end
